theory Spec2Isabelle
  imports Main "HOL-Library.Word" "HOL-Library.AList" "HOL-Library.Multiset"
    "HOL-Library.Char_ord" "HOL-Library.List_Lexorder"
begin

section \<open>The HTTP client pipeline of go-prime: data model\<close>

text \<open>
  The development follows \<^verbatim>\<open>clients/httpclient\<close>: the pipeline composer
  \<^verbatim>\<open>configMiddlewares\<close>, the cache middleware \<^verbatim>\<open>NewCacheMiddleware\<close> with
  its helpers, and the circuit breaker middleware \<^verbatim>\<open>NewCircuitBreakerMiddleware\<close>.
  Go values are modelled as follows.
  \<^item> An \<^verbatim>\<open>error\<close> is a value of the datatype \<open>error\<close>; \<^verbatim>\<open>fmt.Errorf("p: %w", err)\<close>
    is \<open>Errorf p err\<close>, a new error that wraps \<open>err\<close>.
  \<^item> A Go result pair \<^verbatim>\<open>(*http.Response, error)\<close> is a pair of options, \<open>None\<close> for
    \<^verbatim>\<open>nil\<close>, so that a response returned together with an error is a value of the model.
  \<^item> A run-time panic (a nil dereference, a call of a nil function) is the outcome
    \<open>Panic\<close>.
\<close>

datatype error =
    TransportError string
  | Errorf string error
  | ErrorString string
  | HTTPStatusError int error
  | ErrOpenState
  | ErrTooManyRequests
  | ContextCanceled
  | RedisNil
  | ReadError string
  | UnmarshalError string

datatype 'a outcome = Return 'a | Panic string

section \<open>The pipeline composer\<close>

text \<open>
  \<^verbatim>\<open>
  func configMiddlewares(middlewares []RoundTripperMiddleware) http.RoundTripper {
      composed := http.DefaultTransport
      for i := len(middlewares) - 1; i >= 0; i-- {
          composed = middlewares[i](composed)
      }
      return composed
  }
  \<close>
  A middleware is a Go function value and may be \<^verbatim>\<open>nil\<close> (\<open>None\<close>); calling a nil
  function panics. The loop counter of the model is \<open>i + 1\<close>, so that the loop ends at
  \<open>0\<close>. The global \<^verbatim>\<open>http.DefaultTransport\<close> is the first argument.
\<close>

fun configMiddlewares_loop :: "('t \<Rightarrow> 't) option list \<Rightarrow> nat \<Rightarrow> 't \<Rightarrow> 't outcome" where
  "configMiddlewares_loop middlewares 0 composed = Return composed"
| "configMiddlewares_loop middlewares (Suc i) composed =
     (case middlewares ! i of
        None \<Rightarrow> Panic ''invalid memory address or nil pointer dereference''
      | Some m \<Rightarrow> configMiddlewares_loop middlewares i (m composed))"

definition configMiddlewares :: "'t \<Rightarrow> ('t \<Rightarrow> 't) option list \<Rightarrow> 't outcome" where
  "configMiddlewares DefaultTransport middlewares =
     configMiddlewares_loop middlewares (length middlewares) DefaultTransport"

section \<open>Strings, headers, requests and responses\<close>

text \<open>
  A Go \<^verbatim>\<open>string\<close> is a sequence of bytes: a \<open>char list\<close>. Strings are compared
  bytewise (\<^verbatim>\<open>sort.Strings\<close>), which is the lexicographic order on \<open>char list\<close>.
\<close>

fun strings_Join :: "string list \<Rightarrow> string \<Rightarrow> string" where
  "strings_Join [] sep = []"
| "strings_Join [x] sep = x"
| "strings_Join (x # y # ys) sep = x @ sep @ strings_Join (y # ys) sep"

definition isDigit :: "char \<Rightarrow> bool" where
  "isDigit c = (CHR ''0'' \<le> c \<and> c \<le> CHR ''9'')"

definition isLower :: "char \<Rightarrow> bool" where
  "isLower c = (CHR ''a'' \<le> c \<and> c \<le> CHR ''z'')"

definition isUpper :: "char \<Rightarrow> bool" where
  "isUpper c = (CHR ''A'' \<le> c \<and> c \<le> CHR ''Z'')"

text \<open>
  \<^verbatim>\<open>textproto.CanonicalMIMEHeaderKey\<close>, which \<^verbatim>\<open>Header.Get\<close>, \<^verbatim>\<open>Header.Set\<close> and
  \<^verbatim>\<open>Header.Add\<close> apply to the key: the first letter and every letter after a hyphen in
  upper case, the other letters in lower case; a key with a byte that is not a token
  character is left as it is.
\<close>

definition validHeaderFieldByte :: "char \<Rightarrow> bool" where
  "validHeaderFieldByte c =
     (isDigit c \<or> isLower c \<or> isUpper c
      \<or> List.member (''!#$%&*+-.^_|~'' @ [CHR 0x27, CHR 0x60]) c)"

fun canonical_loop :: "bool \<Rightarrow> string \<Rightarrow> string" where
  "canonical_loop upper [] = []"
| "canonical_loop upper (c # cs) =
     (let c' = (if upper \<and> isLower c then char_of (of_char c - (32::nat))
                else if \<not> upper \<and> isUpper c then char_of (of_char c + (32::nat))
                else c)
      in c' # canonical_loop (c' = CHR ''-'') cs)"

definition CanonicalMIMEHeaderKey :: "string \<Rightarrow> string" where
  "CanonicalMIMEHeaderKey s =
     (if list_all validHeaderFieldByte s then canonical_loop True s else s)"

text \<open>
  \<^verbatim>\<open>http.Header\<close> is a \<^verbatim>\<open>map[string][]string\<close>: an association list with distinct
  keys, updated in place. \<^verbatim>\<open>Get\<close> returns the first value of the canonical key, or the
  empty string.
\<close>

type_synonym header = "(string \<times> string list) list"

definition header_Get :: "header \<Rightarrow> string \<Rightarrow> string" where
  "header_Get h key =
     (case map_of h (CanonicalMIMEHeaderKey key) of
        None \<Rightarrow> []
      | Some [] \<Rightarrow> []
      | Some (v # vs) \<Rightarrow> v)"

definition header_Set :: "header \<Rightarrow> string \<Rightarrow> string \<Rightarrow> header" where
  "header_Set h key v = AList.update (CanonicalMIMEHeaderKey key) [v] h"

definition header_Add :: "header \<Rightarrow> string \<Rightarrow> string \<Rightarrow> header" where
  "header_Add h key v =
     (let k = CanonicalMIMEHeaderKey key
      in AList.update k ((case map_of h k of None \<Rightarrow> [] | Some vs \<Rightarrow> vs) @ [v]) h)"

text \<open>
  Of a \<^verbatim>\<open>*url.URL\<close> the middleware reads \<^verbatim>\<open>String()\<close> and \<^verbatim>\<open>Query()\<close> only; the
  record holds these two readings (\<^verbatim>\<open>Query()\<close> is a \<^verbatim>\<open>map[string][]string\<close>, listed in
  one of its iteration orders). The context of a request is named by a number.
\<close>

record url =
  url_String :: string
  url_Query :: "(string \<times> string list) list"

record request =
  req_Method :: string
  req_URL :: url
  req_Header :: header
  req_Context :: nat

text \<open>
  A response body is a stream: reading it to the end gives its bytes, or fails.
\<close>

datatype body = Body string | FailingBody error

record response =
  resp_Status :: string
  resp_StatusCode :: int
  resp_Proto :: string
  resp_ProtoMajor :: int
  resp_ProtoMinor :: int
  resp_Header :: header
  resp_Body :: body
  resp_ContentLength :: int
  resp_Request :: "request option"

text \<open>
  \<^verbatim>\<open>time.Duration\<close> is a signed 64-bit count of nanoseconds.
\<close>

type_synonym duration = "64 word"

definition time_Second :: duration where
  "time_Second = 1000000000"

text \<open>
  Two functions of the Go library stay parameters of the model: the digest
  \<^verbatim>\<open>sha256.Sum256\<close>, and the \<^verbatim>\<open>%v\<close> rendering of the \<^verbatim>\<open>float64\<close> that
  \<^verbatim>\<open>Duration.Seconds()\<close> returns for a duration that is not a whole number of seconds
  (a floating-point computation). For whole seconds the rendering is defined below.
\<close>

record golib =
  sha256_Sum256 :: "string \<Rightarrow> string"
  fmt_fraction :: "duration \<Rightarrow> string"

section \<open>The cache key\<close>

text \<open>
  \<^verbatim>\<open>
  func getCacheKey(req *http.Request, headers cacheKeyHeaders) string {
      keyParts := []string{buildURLPart(req), buildQueryPart(req), buildVaryHeadersPart(req, headers)}
      base := strings.Join(keyParts, "|")
      hash := sha256.Sum256([]byte(base))
      return hex.EncodeToString(hash[:])
  }
  func buildURLPart(req *http.Request) string { return req.URL.String() }
  func buildQueryPart(req *http.Request) string {
      query := req.URL.Query()
      var queryParts []string
      for k, v := range query {
          sort.Strings(v)
          queryParts = append(queryParts, k+"="+strings.Join(v, ","))
      }
      sort.Strings(queryParts)
      return strings.Join(queryParts, "&")
  }
  func buildVaryHeadersPart(req *http.Request, headers cacheKeyHeaders) string {
      var headersParts []string
      for _, key := range headers {
          if req.Header.Get(key) != "" {
              headersParts = append(headersParts, key+":"+req.Header.Get(key))
          }
      }
      return strings.Join(headersParts, "|")
  }
  \<close>
\<close>

definition buildURLPart :: "request \<Rightarrow> string" where
  "buildURLPart req = url_String (req_URL req)"

definition buildQueryPart :: "request \<Rightarrow> string" where
  "buildQueryPart req =
     (let query = url_Query (req_URL req);
          queryParts = map (\<lambda>(k, v). k @ ''='' @ strings_Join (sort v) '','') query
      in strings_Join (sort queryParts) ''&'')"

definition buildVaryHeadersPart :: "request \<Rightarrow> string list \<Rightarrow> string" where
  "buildVaryHeadersPart req headers =
     (let headersParts =
            concat (map (\<lambda>key. if header_Get (req_Header req) key \<noteq> []
                               then [key @ '':'' @ header_Get (req_Header req) key]
                               else []) headers)
      in strings_Join headersParts ''|'')"

definition hextable :: string where
  "hextable = ''0123456789abcdef''"

definition hex_EncodeToString :: "string \<Rightarrow> string" where
  "hex_EncodeToString src =
     concat (map (\<lambda>c. [hextable ! (of_char c div 16), hextable ! (of_char c mod 16)]) src)"

definition cacheKeyBase :: "request \<Rightarrow> string list \<Rightarrow> string" where
  "cacheKeyBase req headers =
     strings_Join [buildURLPart req, buildQueryPart req, buildVaryHeadersPart req headers] ''|''"

definition getCacheKey :: "golib \<Rightarrow> request \<Rightarrow> string list \<Rightarrow> string" where
  "getCacheKey lib req headers =
     (let base = cacheKeyBase req headers;
          hash = sha256_Sum256 lib base
      in hex_EncodeToString hash)"

text \<open>
  For stating properties of the key: the query parameters of a request as the map they
  are (each name with the multiset of its values, whatever the iteration order), the
  inputs of the key that two requests share, and the requests in which the separators
  of the key material do not occur inside its parts: no \<^verbatim>\<open>|\<close> in the URL string; no
  \<^verbatim>\<open>=\<close>, \<^verbatim>\<open>&\<close>, \<^verbatim>\<open>|\<close> in a parameter name; no \<^verbatim>\<open>,\<close>, \<^verbatim>\<open>&\<close>, \<^verbatim>\<open>|\<close> in a
  parameter value (and every parameter has a value); no \<^verbatim>\<open>:\<close>, \<^verbatim>\<open>|\<close> in a
  configured header name; no \<^verbatim>\<open>|\<close> in the value of a configured header.
\<close>

definition query_parameters :: "request \<Rightarrow> (string \<times> string multiset) multiset" where
  "query_parameters req = mset (map (\<lambda>(k, v). (k, mset v)) (url_Query (req_URL req)))"

text \<open>
  The part of the key material that one query parameter contributes:
  \<^verbatim>\<open>k + "=" + strings.Join(sorted values, ",")\<close>.
\<close>

definition query_part :: "string \<times> string multiset \<Rightarrow> string" where
  "query_part p = fst p @ ''='' @ strings_Join (sorted_list_of_multiset (snd p)) '',''"

definition same_key_inputs :: "request \<Rightarrow> request \<Rightarrow> string list \<Rightarrow> bool" where
  "same_key_inputs r1 r2 headers \<longleftrightarrow>
     url_String (req_URL r1) = url_String (req_URL r2)
     \<and> query_parameters r1 = query_parameters r2
     \<and> list_all (\<lambda>key. header_Get (req_Header r1) key = header_Get (req_Header r2) key) headers"

definition separator_free :: "request \<Rightarrow> string list \<Rightarrow> bool" where
  "separator_free req headers \<longleftrightarrow>
     CHR ''|'' \<notin> set (url_String (req_URL req))
     \<and> list_all (\<lambda>(k, v). v \<noteq> []
            \<and> CHR ''='' \<notin> set k \<and> CHR ''&'' \<notin> set k \<and> CHR ''|'' \<notin> set k
            \<and> list_all (\<lambda>x. CHR '','' \<notin> set x \<and> CHR ''&'' \<notin> set x \<and> CHR ''|'' \<notin> set x) v)
          (url_Query (req_URL req))
     \<and> list_all (\<lambda>key. CHR '':'' \<notin> set key \<and> CHR ''|'' \<notin> set key
            \<and> CHR ''|'' \<notin> set (header_Get (req_Header req) key)) headers"

section \<open>Numbers in headers\<close>

text \<open>
  \<^verbatim>\<open>strconv.Atoi\<close> on a 64-bit platform, and the decimal rendering of an \<^verbatim>\<open>int\<close>
  (\<^verbatim>\<open>%v\<close>).
\<close>

fun decimal :: "nat \<Rightarrow> string" where
  "decimal n = (if n < 10 then [''0123456789'' ! n]
                else decimal (n div 10) @ [''0123456789'' ! (n mod 10)])"

declare decimal.simps [simp del]

definition digits_val :: "string \<Rightarrow> nat" where
  "digits_val ds = foldl (\<lambda>n c. 10 * n + (of_char c - 48)) 0 ds"

definition fmt_int :: "int \<Rightarrow> string" where
  "fmt_int n = (if n < 0 then ''-'' else []) @ decimal (nat \<bar>n\<bar>)"

definition strconv_Atoi :: "string \<Rightarrow> error + int" where
  "strconv_Atoi s =
     (let neg = (case s of [] \<Rightarrow> False | c # cs \<Rightarrow> c = CHR ''-'');
          ds = (case s of [] \<Rightarrow> []
                | c # cs \<Rightarrow> if c = CHR ''-'' \<or> c = CHR ''+'' then cs else s)
      in if ds = [] \<or> \<not> list_all isDigit ds then Inl (ErrorString ''invalid syntax'')
         else if neg then
           (if int (digits_val ds) \<le> 2 ^ 63 then Inr (- int (digits_val ds))
            else Inl (ErrorString ''value out of range''))
         else
           (if int (digits_val ds) < 2 ^ 63 then Inr (int (digits_val ds))
            else Inl (ErrorString ''value out of range'')))"

text \<open>
  \<^verbatim>\<open>regexp.MustCompile(`max-age=(\d+)`).FindStringSubmatch(s)\<close>: the leftmost place
  where \<^verbatim>\<open>max-age=\<close> is followed by a digit; the submatch is the longest run of digits
  there. \<open>None\<close> is the empty result (no match).
\<close>

fun stripPrefix :: "string \<Rightarrow> string \<Rightarrow> string option" where
  "stripPrefix [] s = Some s"
| "stripPrefix (p # ps) [] = None"
| "stripPrefix (p # ps) (c # cs) = (if p = c then stripPrefix ps cs else None)"

fun FindStringSubmatch_max_age :: "string \<Rightarrow> string option" where
  "FindStringSubmatch_max_age [] = None"
| "FindStringSubmatch_max_age (c # cs) =
     (case stripPrefix ''max-age='' (c # cs) of
        Some rest \<Rightarrow>
          (if takeWhile isDigit rest \<noteq> [] then Some (takeWhile isDigit rest)
           else FindStringSubmatch_max_age cs)
      | None \<Rightarrow> FindStringSubmatch_max_age cs)"

text \<open>
  \<^verbatim>\<open>
  func getCacheControlHeaderValue(res *http.Response) int {
      cacheControlValue := res.Header.Get("Cache-Control")
      re := regexp.MustCompile(`max-age=(\d+)`)
      matches := re.FindStringSubmatch(cacheControlValue)
      if len(matches) > 1 {
          age, err := strconv.Atoi(matches[1])
          if err != nil { return 0 }
          return age
      }
      return 0
  }
  \<close>
\<close>

definition getCacheControlHeaderValue :: "response \<Rightarrow> int" where
  "getCacheControlHeaderValue res =
     (let cacheControlValue = header_Get (resp_Header res) ''Cache-Control''
      in case FindStringSubmatch_max_age cacheControlValue of
           Some submatch \<Rightarrow>
             (case strconv_Atoi submatch of Inl err \<Rightarrow> 0 | Inr age \<Rightarrow> age)
         | None \<Rightarrow> 0)"

text \<open>
  \<^verbatim>\<open>fmt.Sprintf("%v", ttl.Seconds())\<close>. \<^verbatim>\<open>Seconds()\<close> is a \<^verbatim>\<open>float64\<close>; for a whole
  number of seconds \<open>n\<close> it is \<open>n\<close> exactly (\<open>\<bar>n\<bar> < 2^53\<close>), and \<^verbatim>\<open>%v\<close> prints it with
  the shortest digits: in plain decimal below \<open>10^6\<close> (\<^verbatim>\<open>60\<close>), and with an exponent
  from \<open>10^6\<close> on (\<^verbatim>\<open>1e+06\<close>, \<^verbatim>\<open>3.1536e+07\<close>).
\<close>

definition fmt_float_whole :: "int \<Rightarrow> string" where
  "fmt_float_whole n =
     (let ds = decimal (nat \<bar>n\<bar>);
          sign = (if n < 0 then ''-'' else [])
      in if length ds \<le> 6 then sign @ ds
         else
           (case rev (dropWhile (\<lambda>c. c = CHR ''0'') (rev ds)) of
              [] \<Rightarrow> sign @ ds
            | d # frac \<Rightarrow>
                sign @ [d] @ (if frac = [] then [] else ''.'' @ frac) @ ''e+''
                @ (if length ds - 1 < 10 then ''0'' else []) @ decimal (length ds - 1)))"

definition fmt_Seconds :: "golib \<Rightarrow> duration \<Rightarrow> string" where
  "fmt_Seconds lib d =
     (if sint d mod 1000000000 = 0 then fmt_float_whole (sint d div 1000000000)
      else fmt_fraction lib d)"

section \<open>The cache record, the store and the world\<close>

text \<open>
  The wire format of the store is JSON text. The model does not spell the text out: a
  stored text is either \<open>Marshalled sc\<close>, the text \<^verbatim>\<open>json.Marshal\<close> gives for the record
  \<open>sc\<close> and that \<^verbatim>\<open>json.Unmarshal\<close> reads back as \<open>sc\<close>, or \<open>OtherText s\<close>, a text
  that does not decode (\<open>OtherText []\<close> is the empty string).
\<close>

record CachePolicy =
  policy_MaxAge :: int
  policy_Headers :: "string list"

record SerializableCache =
  sc_Status :: string
  sc_StatusCode :: int
  sc_Proto :: string
  sc_ResponseHeaders :: header
  sc_Body :: string
  sc_CacheControlValue :: int
  sc_Policy :: CachePolicy

datatype cache_text = Marshalled SerializableCache | OtherText string

text \<open>
  The world a round trip runs in: a clock (\<^verbatim>\<open>time.Now()\<close>, in nanoseconds), the contents
  of the key-value store, the contexts that are cancelled, the goroutines started and not
  yet run (each a pending \<^verbatim>\<open>Set\<close> call: context, key, text, expiration), and the requests
  the network has seen. Logging is not part of the model.
\<close>

record set_call =
  set_ctx :: nat
  set_key :: string
  set_text :: cache_text
  set_expiration :: duration

record world =
  clock :: int
  redis_db :: "(string \<times> cache_text \<times> duration) list"
  canceled :: "nat list"
  goroutines :: "set_call list"
  network :: "request list"

type_synonym result = "response option \<times> error option"

type_synonym transport = "request \<Rightarrow> world \<Rightarrow> result outcome \<times> world"

text \<open>
  \<^verbatim>\<open>
  type IRedisClient interface {
      Get(ctx context.Context, key string) (string, error)
      Set(ctx context.Context, key string, value any, expiration time.Duration) error
  }
  \<close>
  An implementation is a pair of functions on the world. \<open>RedisClient\<close> is the one of
  \<^verbatim>\<open>clients/redisclient\<close>, which hands both calls to go-redis: a call under a cancelled
  context fails, a missing key is the error \<^verbatim>\<open>redis.Nil\<close>.
\<close>

record IRedisClient =
  redis_Get :: "nat \<Rightarrow> string \<Rightarrow> world \<Rightarrow> (cache_text \<times> error option) \<times> world"
  redis_Set :: "nat \<Rightarrow> string \<Rightarrow> cache_text \<Rightarrow> duration \<Rightarrow> world \<Rightarrow> error option \<times> world"

definition RedisClient_Get :: "nat \<Rightarrow> string \<Rightarrow> world \<Rightarrow> (cache_text \<times> error option) \<times> world" where
  "RedisClient_Get ctx key w =
     (if List.member (canceled w) ctx then ((OtherText [], Some ContextCanceled), w)
      else case map_of (redis_db w) key of
             None \<Rightarrow> ((OtherText [], Some RedisNil), w)
           | Some (v, expiration) \<Rightarrow> ((v, None), w))"

definition RedisClient_Set :: "nat \<Rightarrow> string \<Rightarrow> cache_text \<Rightarrow> duration \<Rightarrow> world \<Rightarrow> error option \<times> world" where
  "RedisClient_Set ctx key v expiration w =
     (if List.member (canceled w) ctx then (Some ContextCanceled, w)
      else (None, w\<lparr>redis_db := AList.update key (v, expiration) (redis_db w)\<rparr>))"

definition RedisClient :: IRedisClient where
  "RedisClient = \<lparr>redis_Get = RedisClient_Get, redis_Set = RedisClient_Set\<rparr>"

record CacheConfig =
  cfg_RedisClient :: "IRedisClient option"
  cfg_TTL :: duration
  cfg_OverrideTTL :: bool
  cfg_Headers :: "string list"

section \<open>The cache middleware\<close>

text \<open>
  \<^verbatim>\<open>
  func responseToJSON(resp *http.Response, policy CachePolicy) ([]byte, error) {
      bodyBytes, err := io.ReadAll(resp.Body)
      if err != nil { return nil, fmt.Errorf("failed to read response body: %w", err) }
      resp.Body = io.NopCloser(strings.NewReader(string(bodyBytes)))
      sr := SerializableCache{Status: resp.Status, StatusCode: resp.StatusCode, Proto: resp.Proto,
          ResponseHeaders: resp.Header, Policy: policy,
          CacheControlValue: getCacheControlHeaderValue(resp), Body: string(bodyBytes)}
      return json.Marshal(sr)
  }
  \<close>
  The function writes to \<^verbatim>\<open>resp.Body\<close>, so the model returns the response as well.
\<close>

definition responseToJSON :: "response \<Rightarrow> CachePolicy \<Rightarrow> (error + cache_text) \<times> response" where
  "responseToJSON resp policy =
     (case resp_Body resp of
        FailingBody err \<Rightarrow> (Inl (Errorf ''failed to read response body'' err), resp)
      | Body bodyBytes \<Rightarrow>
          (let resp = resp\<lparr>resp_Body := Body bodyBytes\<rparr>;
               sr = \<lparr>sc_Status = resp_Status resp,
                     sc_StatusCode = resp_StatusCode resp,
                     sc_Proto = resp_Proto resp,
                     sc_ResponseHeaders = resp_Header resp,
                     sc_Body = bodyBytes,
                     sc_CacheControlValue = getCacheControlHeaderValue resp,
                     sc_Policy = policy\<rparr>
           in (Inr (Marshalled sr), resp)))"

definition parseCachedResponseFromString :: "cache_text \<Rightarrow> error + SerializableCache" where
  "parseCachedResponseFromString jsonStr =
     (case jsonStr of
        Marshalled sc \<Rightarrow> Inr sc
      | OtherText s \<Rightarrow> Inl (Errorf ''failed to unmarshal cached response'' (UnmarshalError s)))"

text \<open>
  The hit branch of \<^verbatim>\<open>NewCacheMiddleware\<close> (lines 95 to 117): the response rebuilt
  from the stored record, with \<^verbatim>\<open>Cache-Control\<close> and \<^verbatim>\<open>X-Cache\<close> set.
\<close>

definition cache_hit_response :: "SerializableCache \<Rightarrow> request \<Rightarrow> response" where
  "cache_hit_response responseSerialized req =
     (let resp = \<lparr>resp_Status = sc_Status responseSerialized,
                   resp_StatusCode = sc_StatusCode responseSerialized,
                   resp_Proto = sc_Proto responseSerialized,
                   resp_ProtoMajor = 1,
                   resp_ProtoMinor = 1,
                   resp_Header = [],
                   resp_Body = Body (sc_Body responseSerialized),
                   resp_ContentLength = int (length (sc_Body responseSerialized)),
                   resp_Request = Some req\<rparr>;
          resp = resp\<lparr>resp_Header :=
                   foldl (\<lambda>h (k, v). foldl (\<lambda>h vv. header_Add h k vv) h v) (resp_Header resp)
                     (sc_ResponseHeaders responseSerialized)\<rparr>;
          newCacheControl = ''max-age='' @ fmt_int (sc_CacheControlValue responseSerialized) @ '', public'';
          resp = resp\<lparr>resp_Header := header_Set (resp_Header resp) ''Cache-Control'' newCacheControl\<rparr>;
          resp = resp\<lparr>resp_Header := header_Set (resp_Header resp) ''X-Cache'' ''HIT''\<rparr>
      in resp)"

text \<open>
  The branch for a 2xx response on a miss (lines 126 to 161). The goroutine
  \<^verbatim>\<open>go func() { setErr := cfg.RedisClient.Set(req.Context(), cacheKey, cachedValue, ttl) ... }()\<close>
  is started, not run: its \<^verbatim>\<open>Set\<close> call is appended to the goroutines of the world.
\<close>

definition cache_store_response ::
  "golib \<Rightarrow> CacheConfig \<Rightarrow> string \<Rightarrow> request \<Rightarrow> response \<Rightarrow> world \<Rightarrow> result outcome \<times> world" where
  "cache_store_response lib cfg cacheKey req resp w =
     (let responseCacheControl = getCacheControlHeaderValue resp;
          ttl = time_Second * word_of_int responseCacheControl;
          ttl = (if cfg_OverrideTTL cfg then cfg_TTL cfg else ttl);
          newCacheControl = ''max-age='' @ fmt_Seconds lib ttl @ '', public'';
          resp = resp\<lparr>resp_Header := header_Set (resp_Header resp) ''Cache-Control'' newCacheControl\<rparr>;
          policy = \<lparr>policy_MaxAge = responseCacheControl, policy_Headers = cfg_Headers cfg\<rparr>;
          (marshalled, resp) = responseToJSON resp policy;
          resp = resp\<lparr>resp_Header := header_Set (resp_Header resp) ''X-Cache'' ''MISS''\<rparr>
      in case marshalled of
           Inl err \<Rightarrow>
             (Return (Some resp, Some (Errorf ''error serializing response for cache'' err)), w)
         | Inr cachedValue \<Rightarrow>
             (Return (Some resp, None),
              w\<lparr>goroutines := goroutines w @
                   [\<lparr>set_ctx = req_Context req, set_key = cacheKey,
                     set_text = cachedValue, set_expiration = ttl\<rparr>]\<rparr>))"

text \<open>
  \<^verbatim>\<open>NewCacheMiddleware(cfg)(next).RoundTrip(req)\<close>. A \<^verbatim>\<open>next\<close> that returns neither a
  response nor an error makes \<^verbatim>\<open>resp.StatusCode\<close> a nil dereference.
\<close>

definition NewCacheMiddleware :: "golib \<Rightarrow> CacheConfig \<Rightarrow> transport \<Rightarrow> transport" where
  "NewCacheMiddleware lib cfg nxt req w =
     (case cfg_RedisClient cfg of
        None \<Rightarrow> nxt req w
      | Some client \<Rightarrow>
          if req_Method req \<noteq> ''GET'' then nxt req w
          else
            (let cacheKey = getCacheKey lib req (cfg_Headers cfg);
                 ((v, err), w) = redis_Get client (req_Context req) cacheKey w
             in if err = None \<and> v \<noteq> OtherText [] then
                  (case parseCachedResponseFromString v of
                     Inl err \<Rightarrow> nxt req w
                   | Inr responseSerialized \<Rightarrow>
                       (Return (Some (cache_hit_response responseSerialized req), None), w))
                else
                  (case nxt req w of
                     (Panic p, w) \<Rightarrow> (Panic p, w)
                   | (Return (resp, Some err), w) \<Rightarrow>
                       (Return (resp, Some (Errorf ''error executing request'' err)), w)
                   | (Return (None, None), w) \<Rightarrow>
                       (Panic ''invalid memory address or nil pointer dereference'', w)
                   | (Return (Some resp, None), w) \<Rightarrow>
                       if 200 \<le> resp_StatusCode resp \<and> resp_StatusCode resp < 300
                       then cache_store_response lib cfg cacheKey req resp w
                       else (Return (Some resp, None), w))))"

text \<open>
  Running a started goroutine: the \<^verbatim>\<open>Set\<close> call on the client of the configuration
  (its error is only logged).
\<close>

definition run_goroutine :: "IRedisClient \<Rightarrow> set_call \<Rightarrow> world \<Rightarrow> world" where
  "run_goroutine client g w =
     snd (redis_Set client (set_ctx g) (set_key g) (set_text g) (set_expiration g) w)"

definition run_goroutines :: "IRedisClient \<Rightarrow> world \<Rightarrow> world" where
  "run_goroutines client w =
     fold (run_goroutine client) (goroutines w) (w\<lparr>goroutines := []\<rparr>)"

text \<open>
  The three ways a request leaves the first part of the middleware (lines 75 to 118),
  for stating properties: it bypasses the cache (no store, a method other than GET, or
  a stored text that does not decode), it is served from the stored record, or it is a
  miss under a cache key. Each carries the world after the lookup. This function is
  derived from \<open>NewCacheMiddleware\<close>; lemma \<open>NewCacheMiddleware_paths\<close> relates the two.
\<close>

datatype cache_path = Bypass world | Hit SerializableCache world | Miss string world

definition cache_path_of :: "golib \<Rightarrow> CacheConfig \<Rightarrow> request \<Rightarrow> world \<Rightarrow> cache_path" where
  "cache_path_of lib cfg req w =
     (case cfg_RedisClient cfg of
        None \<Rightarrow> Bypass w
      | Some client \<Rightarrow>
          if req_Method req \<noteq> ''GET'' then Bypass w
          else
            (let cacheKey = getCacheKey lib req (cfg_Headers cfg);
                 ((v, err), w) = redis_Get client (req_Context req) cacheKey w
             in if err = None \<and> v \<noteq> OtherText [] then
                  (case parseCachedResponseFromString v of
                     Inl err \<Rightarrow> Bypass w
                   | Inr responseSerialized \<Rightarrow> Hit responseSerialized w)
                else Miss cacheKey w))"

section \<open>The circuit breaker of the gobreaker library\<close>

text \<open>
  \<^verbatim>\<open>github.com/sony/gobreaker\<close> is a library the middleware calls; this section follows
  the library's \<^verbatim>\<open>gobreaker.go\<close>. The counters are \<^verbatim>\<open>uint32\<close>, the generation is a
  \<^verbatim>\<open>uint64\<close>, a time is a number of nanoseconds, and the zero \<^verbatim>\<open>time.Time\<close> is
  \<open>None\<close>. The mutex is not modelled: each library call is one step.
\<close>

datatype State = StateClosed | StateHalfOpen | StateOpen

record Counts =
  Requests :: "32 word"
  TotalSuccesses :: "32 word"
  TotalFailures :: "32 word"
  ConsecutiveSuccesses :: "32 word"
  ConsecutiveFailures :: "32 word"

record Settings =
  st_Name :: string
  st_MaxRequests :: "32 word"
  st_Interval :: duration
  st_Timeout :: duration
  st_ReadyToTrip :: "(Counts \<Rightarrow> bool) option"
  st_IsSuccessful :: "(error option \<Rightarrow> bool) option"

record CircuitBreaker =
  cb_name :: string
  cb_maxRequests :: "32 word"
  cb_interval :: duration
  cb_timeout :: duration
  cb_readyToTrip :: "Counts \<Rightarrow> bool"
  cb_isSuccessful :: "error option \<Rightarrow> bool"
  cb_state :: State
  cb_generation :: "64 word"
  cb_counts :: Counts
  cb_expiry :: "int option"

definition Counts_clear :: Counts where
  "Counts_clear = \<lparr>Requests = 0, TotalSuccesses = 0, TotalFailures = 0,
                    ConsecutiveSuccesses = 0, ConsecutiveFailures = 0\<rparr>"

definition Counts_onRequest :: "Counts \<Rightarrow> Counts" where
  "Counts_onRequest c = c\<lparr>Requests := Requests c + 1\<rparr>"

definition Counts_onSuccess :: "Counts \<Rightarrow> Counts" where
  "Counts_onSuccess c =
     c\<lparr>TotalSuccesses := TotalSuccesses c + 1,
       ConsecutiveSuccesses := ConsecutiveSuccesses c + 1,
       ConsecutiveFailures := 0\<rparr>"

definition Counts_onFailure :: "Counts \<Rightarrow> Counts" where
  "Counts_onFailure c =
     c\<lparr>TotalFailures := TotalFailures c + 1,
       ConsecutiveFailures := ConsecutiveFailures c + 1,
       ConsecutiveSuccesses := 0\<rparr>"

definition toNewGeneration :: "CircuitBreaker \<Rightarrow> int \<Rightarrow> CircuitBreaker" where
  "toNewGeneration cb now =
     (let cb = cb\<lparr>cb_generation := cb_generation cb + 1, cb_counts := Counts_clear\<rparr>
      in case cb_state cb of
           StateClosed \<Rightarrow>
             (if cb_interval cb = 0 then cb\<lparr>cb_expiry := None\<rparr>
              else cb\<lparr>cb_expiry := Some (now + sint (cb_interval cb))\<rparr>)
         | StateOpen \<Rightarrow> cb\<lparr>cb_expiry := Some (now + sint (cb_timeout cb))\<rparr>
         | StateHalfOpen \<Rightarrow> cb\<lparr>cb_expiry := None\<rparr>)"

definition setState :: "CircuitBreaker \<Rightarrow> State \<Rightarrow> int \<Rightarrow> CircuitBreaker" where
  "setState cb state now =
     (if cb_state cb = state then cb else toNewGeneration (cb\<lparr>cb_state := state\<rparr>) now)"

text \<open>
  \<^verbatim>\<open>currentState\<close> returns the state and the generation after its own update of the
  breaker; the model returns the updated breaker, from which both are read.
\<close>

definition currentState :: "CircuitBreaker \<Rightarrow> int \<Rightarrow> CircuitBreaker" where
  "currentState cb now =
     (case cb_state cb of
        StateClosed \<Rightarrow>
          (case cb_expiry cb of
             None \<Rightarrow> cb
           | Some expiry \<Rightarrow> if expiry < now then toNewGeneration cb now else cb)
      | StateOpen \<Rightarrow>
          (case cb_expiry cb of
             None \<Rightarrow> setState cb StateHalfOpen now
           | Some expiry \<Rightarrow> if expiry < now then setState cb StateHalfOpen now else cb)
      | StateHalfOpen \<Rightarrow> cb)"

definition beforeRequest :: "CircuitBreaker \<Rightarrow> int \<Rightarrow> CircuitBreaker \<times> 64 word \<times> error option" where
  "beforeRequest cb now =
     (let cb = currentState cb now;
          state = cb_state cb;
          generation = cb_generation cb
      in if state = StateOpen then (cb, generation, Some ErrOpenState)
         else if state = StateHalfOpen \<and> Requests (cb_counts cb) \<ge> cb_maxRequests cb
         then (cb, generation, Some ErrTooManyRequests)
         else (cb\<lparr>cb_counts := Counts_onRequest (cb_counts cb)\<rparr>, generation, None))"

definition onSuccess :: "CircuitBreaker \<Rightarrow> State \<Rightarrow> int \<Rightarrow> CircuitBreaker" where
  "onSuccess cb state now =
     (case state of
        StateClosed \<Rightarrow> cb\<lparr>cb_counts := Counts_onSuccess (cb_counts cb)\<rparr>
      | StateHalfOpen \<Rightarrow>
          (let cb = cb\<lparr>cb_counts := Counts_onSuccess (cb_counts cb)\<rparr>
           in if ConsecutiveSuccesses (cb_counts cb) \<ge> cb_maxRequests cb
              then setState cb StateClosed now else cb)
      | StateOpen \<Rightarrow> cb)"

definition onFailure :: "CircuitBreaker \<Rightarrow> State \<Rightarrow> int \<Rightarrow> CircuitBreaker" where
  "onFailure cb state now =
     (case state of
        StateClosed \<Rightarrow>
          (let cb = cb\<lparr>cb_counts := Counts_onFailure (cb_counts cb)\<rparr>
           in if cb_readyToTrip cb (cb_counts cb) then setState cb StateOpen now else cb)
      | StateHalfOpen \<Rightarrow> setState cb StateOpen now
      | StateOpen \<Rightarrow> cb)"

definition afterRequest :: "CircuitBreaker \<Rightarrow> 64 word \<Rightarrow> bool \<Rightarrow> int \<Rightarrow> CircuitBreaker" where
  "afterRequest cb before0 success now =
     (let cb = currentState cb now;
          state = cb_state cb;
          generation = cb_generation cb
      in if generation \<noteq> before0 then cb
         else if success then onSuccess cb state now
         else onFailure cb state now)"

definition defaultReadyToTrip :: "Counts \<Rightarrow> bool" where
  "defaultReadyToTrip counts = (ConsecutiveFailures counts > 5)"

definition defaultIsSuccessful :: "error option \<Rightarrow> bool" where
  "defaultIsSuccessful err = (err = None)"

definition NewCircuitBreaker :: "Settings \<Rightarrow> int \<Rightarrow> CircuitBreaker" where
  "NewCircuitBreaker st now =
     toNewGeneration
       \<lparr>cb_name = st_Name st,
        cb_maxRequests = (if st_MaxRequests st = 0 then 1 else st_MaxRequests st),
        cb_interval = (if sint (st_Interval st) \<le> 0 then 0 else st_Interval st),
        cb_timeout = (if sint (st_Timeout st) \<le> 0 then 60 * time_Second else st_Timeout st),
        cb_readyToTrip = (case st_ReadyToTrip st of None \<Rightarrow> defaultReadyToTrip | Some f \<Rightarrow> f),
        cb_isSuccessful = (case st_IsSuccessful st of None \<Rightarrow> defaultIsSuccessful | Some f \<Rightarrow> f),
        cb_state = StateClosed,
        cb_generation = 0,
        cb_counts = Counts_clear,
        cb_expiry = None\<rparr> now"

text \<open>
  \<^verbatim>\<open>Execute\<close> runs the request if \<^verbatim>\<open>beforeRequest\<close> admits it, and counts its outcome.
  A panic of the request is counted as a failure and raised again.
\<close>

definition Execute ::
  "CircuitBreaker \<Rightarrow> (world \<Rightarrow> result outcome \<times> world) \<Rightarrow> world
     \<Rightarrow> (result outcome \<times> CircuitBreaker) \<times> world" where
  "Execute cb req w =
     (case beforeRequest cb (clock w) of
        (cb, generation, Some err) \<Rightarrow> ((Return (None, Some err), cb), w)
      | (cb, generation, None) \<Rightarrow>
          (case req w of
             (Panic e, w) \<Rightarrow> ((Panic e, afterRequest cb generation False (clock w)), w)
           | (Return (res, err), w) \<Rightarrow>
               ((Return (res, err),
                 afterRequest cb generation (cb_isSuccessful cb err) (clock w)), w)))"

section \<open>The circuit breaker middleware\<close>

text \<open>
  \<^verbatim>\<open>
  func NewCircuitBreakerMiddleware(name string) func(next http.RoundTripper) http.RoundTripper {
      return func(next http.RoundTripper) http.RoundTripper {
          return RoundTripperFunc(func(req *http.Request) (*http.Response, error) {
              breaker := gobreaker.NewCircuitBreaker(gobreaker.Settings{
                  Name: name, MaxRequests: 10, Interval: time.Second * 10,
                  ReadyToTrip: func(counts gobreaker.Counts) bool {
                      total := counts.Requests
                      failures := counts.TotalFailures
                      return total >= 20 && failures*100/total >= 50
                  },
                  IsSuccessful: func(err error) bool {
                      if err == nil { return true }
                      if httpErr, ok := err.(*HTTPStatusError); ok {
                          return httpErr.Status < 500 && httpErr.Status != 429
                      }
                      return false
                  },
              })
              logState(name, breaker, req)
              result, err := breaker.Execute(func() (any, error) {
                  resp, err := next.RoundTrip(req)
                  if err != nil { return nil, err }
                  if resp.StatusCode >= 500 || resp.StatusCode == 429 {
                      return nil, &HTTPStatusError{Status: resp.StatusCode, Err: fmt.Errorf("HTTP error")}
                  }
                  return resp, nil
              })
              if err != nil { return nil, err }
              return result.(*http.Response), nil
          })
      }
  }
  \<close>
\<close>

definition ReadyToTrip :: "Counts \<Rightarrow> bool" where
  "ReadyToTrip counts =
     (let total = Requests counts;
          failures = TotalFailures counts
      in total \<ge> 20 \<and> failures * 100 div total \<ge> 50)"

definition IsSuccessful :: "error option \<Rightarrow> bool" where
  "IsSuccessful err =
     (case err of
        None \<Rightarrow> True
      | Some (HTTPStatusError status e) \<Rightarrow> status < 500 \<and> status \<noteq> 429
      | Some other \<Rightarrow> False)"

definition breaker_settings :: "string \<Rightarrow> Settings" where
  "breaker_settings name =
     \<lparr>st_Name = name, st_MaxRequests = 10, st_Interval = time_Second * 10, st_Timeout = 0,
      st_ReadyToTrip = Some ReadyToTrip, st_IsSuccessful = Some IsSuccessful\<rparr>"

text \<open>The function handed to \<^verbatim>\<open>Execute\<close> (lines 58 to 69).\<close>

definition breaker_request :: "transport \<Rightarrow> request \<Rightarrow> world \<Rightarrow> result outcome \<times> world" where
  "breaker_request nxt req w =
     (case nxt req w of
        (Panic p, w) \<Rightarrow> (Panic p, w)
      | (Return (resp, Some err), w) \<Rightarrow> (Return (None, Some err), w)
      | (Return (None, None), w) \<Rightarrow>
          (Panic ''invalid memory address or nil pointer dereference'', w)
      | (Return (Some resp, None), w) \<Rightarrow>
          if resp_StatusCode resp \<ge> 500 \<or> resp_StatusCode resp = 429
          then (Return (None, Some (HTTPStatusError (resp_StatusCode resp) (ErrorString ''HTTP error''))), w)
          else (Return (Some resp, None), w))"

text \<open>
  The round trip on a given breaker (lines 56 to 75): \<^verbatim>\<open>logState\<close> reads
  \<^verbatim>\<open>breaker.State()\<close>, then the request is executed. The breaker after the call is
  returned beside the result.
\<close>

definition breaker_RoundTrip ::
  "CircuitBreaker \<Rightarrow> transport \<Rightarrow> request \<Rightarrow> world \<Rightarrow> (result outcome \<times> CircuitBreaker) \<times> world" where
  "breaker_RoundTrip breaker nxt req w =
     (let breaker = currentState breaker (clock w)
      in case Execute breaker (breaker_request nxt req) w of
           ((Panic p, breaker), w) \<Rightarrow> ((Panic p, breaker), w)
         | ((Return (res, Some err), breaker), w) \<Rightarrow> ((Return (None, Some err), breaker), w)
         | ((Return (None, None), breaker), w) \<Rightarrow>
             ((Panic ''interface conversion: interface is nil'', breaker), w)
         | ((Return (Some resp, None), breaker), w) \<Rightarrow> ((Return (Some resp, None), breaker), w))"

text \<open>
  The middleware: the breaker is constructed inside the function that serves one request
  (line 32), and is not kept after it.
\<close>

definition NewCircuitBreakerMiddleware :: "string \<Rightarrow> transport \<Rightarrow> transport" where
  "NewCircuitBreakerMiddleware name nxt req w =
     (let breaker = NewCircuitBreaker (breaker_settings name) (clock w);
          ((r, breaker), w) = breaker_RoundTrip breaker nxt req w
      in (r, w))"

section \<open>Sequences of calls and the transports of the scenarios\<close>

text \<open>
  Consecutive calls through one transport, each in the world the call before left, and
  the same calls through \<open>breaker_RoundTrip\<close> on one breaker that is kept from call to
  call.
\<close>

fun round_trips :: "transport \<Rightarrow> request list \<Rightarrow> world \<Rightarrow> result outcome list \<times> world" where
  "round_trips rt [] w = ([], w)"
| "round_trips rt (req # reqs) w =
     (case rt req w of (r, w) \<Rightarrow> (case round_trips rt reqs w of (rs, w) \<Rightarrow> (r # rs, w)))"

fun kept_breaker_round_trips ::
  "CircuitBreaker \<Rightarrow> transport \<Rightarrow> request list \<Rightarrow> world
     \<Rightarrow> result outcome list \<times> CircuitBreaker \<times> world" where
  "kept_breaker_round_trips cb nxt [] w = ([], cb, w)"
| "kept_breaker_round_trips cb nxt (req # reqs) w =
     (case breaker_RoundTrip cb nxt req w of
        ((r, cb), w) \<Rightarrow>
          (case kept_breaker_round_trips cb nxt reqs w of (rs, cb, w) \<Rightarrow> (r # rs, cb, w)))"

text \<open>
  A network that answers the \<open>n\<close>-th request it sees with the \<open>n\<close>-th status of a list
  (and with 200 after the list), records the request, and takes a millisecond.
\<close>

definition status_response :: "int \<Rightarrow> response" where
  "status_response code =
     \<lparr>resp_Status = fmt_int code, resp_StatusCode = code, resp_Proto = ''HTTP/1.1'',
      resp_ProtoMajor = 1, resp_ProtoMinor = 1, resp_Header = [], resp_Body = Body [],
      resp_ContentLength = 0, resp_Request = None\<rparr>"

definition scripted_network :: "int list \<Rightarrow> transport" where
  "scripted_network statuses req w =
     (let n = length (network w);
          code = (if n < length statuses then statuses ! n else 200)
      in (Return (Some (status_response code), None),
          w\<lparr>network := network w @ [req], clock := clock w + 1000000\<rparr>))"

definition get_request :: "string \<Rightarrow> header \<Rightarrow> request" where
  "get_request target h =
     \<lparr>req_Method = ''GET'', req_URL = \<lparr>url_String = target, url_Query = []\<rparr>,
      req_Header = h, req_Context = 0\<rparr>"

definition empty_world :: world where
  "empty_world = \<lparr>clock = 0, redis_db = [], canceled = [], goroutines = [], network = []\<rparr>"

text \<open>
  A network that records the request and answers with a given response, one that fails
  with a given error, and the configuration of the scenarios: the store of
  \<^verbatim>\<open>clients/redisclient\<close>, a TTL of 30 seconds, the key header \<^verbatim>\<open>Authorization\<close>.
\<close>

definition respond_with :: "response \<Rightarrow> transport" where
  "respond_with resp req w = (Return (Some resp, None), w\<lparr>network := network w @ [req]\<rparr>)"

definition fail_with :: "error \<Rightarrow> transport" where
  "fail_with err req w = (Return (None, Some err), w\<lparr>network := network w @ [req]\<rparr>)"

definition cache_config :: "bool \<Rightarrow> CacheConfig" where
  "cache_config override =
     \<lparr>cfg_RedisClient = Some RedisClient, cfg_TTL = 30 * time_Second,
      cfg_OverrideTTL = override, cfg_Headers = [''Authorization'']\<rparr>"

text \<open>
  Scenario B: \<^verbatim>\<open>GET /items\<close> is answered with status 200 and
  \<^verbatim>\<open>Cache-Control: max-age=60\<close>.
\<close>

definition scenario_B_response :: response where
  "scenario_B_response =
     \<lparr>resp_Status = ''200 OK'', resp_StatusCode = 200, resp_Proto = ''HTTP/1.1'',
      resp_ProtoMajor = 1, resp_ProtoMinor = 1,
      resp_Header = [(''Cache-Control'', [''max-age=60''])], resp_Body = Body ''[]'',
      resp_ContentLength = 2, resp_Request = None\<rparr>"

definition scenario_B_request :: request where
  "scenario_B_request = get_request ''http://api.example.com/items'' []"

text \<open>
  A record as a store holds it after scenario B, and the world whose store holds it
  under a given key.
\<close>

definition scenario_B_record :: SerializableCache where
  "scenario_B_record =
     \<lparr>sc_Status = ''200 OK'', sc_StatusCode = 200, sc_Proto = ''HTTP/1.1'',
      sc_ResponseHeaders = [(''Cache-Control'', [''max-age=60, public''])],
      sc_Body = ''[]'', sc_CacheControlValue = 60,
      sc_Policy = \<lparr>policy_MaxAge = 60, policy_Headers = [''Authorization'']\<rparr>\<rparr>"

definition world_with_entry :: "string \<Rightarrow> world" where
  "world_with_entry k =
     empty_world\<lparr>redis_db := [(k, Marshalled scenario_B_record, 60 * time_Second)]\<rparr>"



text \<open>
  Scenario C: 25 calls of which 15 are answered with status 500 (the first fourteen and
  the twenty-fifth), and a 26th call.
\<close>

definition scenario_C_statuses :: "int list" where
  "scenario_C_statuses = replicate 14 500 @ replicate 10 200 @ [500]"

definition scenario_C_requests :: "request list" where
  "scenario_C_requests = replicate 26 (get_request ''http://svc/health'' [])"

section \<open>Properties of the pipeline composer\<close>

lemma configMiddlewares_loop_take:
  "i \<le> length ms \<Longrightarrow>
   configMiddlewares_loop (map Some ms) i t = Return (foldr (\<lambda>m acc. m acc) (take i ms) t)"
proof (induction i arbitrary: t)
  case 0
  show ?case by simp
next
  case (Suc i)
  then have lt: "i < length ms" by simp
  have "take (Suc i) ms = take i ms @ [ms ! i]"
    using lt by (simp add: take_Suc_conv_app_nth)
  with Suc lt show ?case by simp
qed

text \<open>
  C9. For every list of (non-nil) middlewares, of any length, \<open>configMiddlewares\<close>
  returns the nested application of the middlewares over the base transport with the
  first-listed middleware outermost: nothing for the empty list, and \<open>m\<close> applied to the
  composition of the rest for \<open>m # ms\<close>. The result is a function of the list and the base
  alone, so composing the same list again gives the same transport.
\<close>

theorem configMiddlewares_nested:
  "configMiddlewares base (map Some ms) = Return (foldr (\<lambda>m inner. m inner) ms base)
   \<and> configMiddlewares base [] = Return base
   \<and> configMiddlewares base (Some m # map Some ms) =
       Return (m (foldr (\<lambda>m inner. m inner) ms base))"
proof -
  have nested: "configMiddlewares base (map Some ns) = Return (foldr (\<lambda>m inner. m inner) ns base)"
    for ns :: "('a \<Rightarrow> 'a) list"
  proof -
    have "configMiddlewares_loop (map Some ns) (length ns) base
          = Return (foldr (\<lambda>m acc. m acc) (take (length ns) ns) base)"
      by (rule configMiddlewares_loop_take) simp
    then show ?thesis
      by (simp add: configMiddlewares_def)
  qed
  have "configMiddlewares base (Some m # map Some ms) = configMiddlewares base (map Some (m # ms))"
    by simp
  then show ?thesis
    using nested [of ms] nested [of "m # ms"] nested [of "[]"] by simp
qed

section \<open>Lemmas on strings\<close>

lemma hextable_distinct: "distinct hextable"
  by (simp add: hextable_def)

lemma hextable_inj: "i < 16 \<Longrightarrow> j < 16 \<Longrightarrow> hextable ! i = hextable ! j \<Longrightarrow> i = j"
  using hextable_distinct by (simp add: nth_eq_iff_index_eq hextable_def)

lemma hex_byte_inj:
  assumes "hextable ! (of_char c div 16) = hextable ! (of_char d div 16)"
    and "hextable ! (of_char c mod 16) = hextable ! (of_char d mod 16)"
  shows "c = d"
proof -
  have c: "(of_char c :: nat) < 256" and d: "(of_char d :: nat) < 256"
    by (simp_all)
  have "(of_char c :: nat) div 16 = of_char d div 16"
    using assms(1) c d by (intro hextable_inj) (simp_all add: less_mult_imp_div_less)
  moreover have "(of_char c :: nat) mod 16 = of_char d mod 16"
    using assms(2) by (intro hextable_inj) simp_all
  ultimately have "(of_char c :: nat) = of_char d"
    by (metis div_mult_mod_eq)
  then show ?thesis by simp
qed

lemma hex_EncodeToString_inj:
  "hex_EncodeToString xs = hex_EncodeToString ys \<Longrightarrow> xs = ys"
proof (induction xs arbitrary: ys)
  case Nil
  then show ?case by (cases ys) (simp_all add: hex_EncodeToString_def)
next
  case (Cons c xs)
  then obtain d ys' where ys: "ys = d # ys'"
    by (cases ys) (simp_all add: hex_EncodeToString_def)
  from Cons.prems have "c = d" and "hex_EncodeToString xs = hex_EncodeToString ys'"
    by (auto simp: ys hex_EncodeToString_def intro: hex_byte_inj)
  with Cons.IH show ?case by (simp add: ys)
qed

lemma append_sep_split:
  "c \<notin> set a \<Longrightarrow> c \<notin> set a' \<Longrightarrow> a @ c # b = a' @ c # b' \<Longrightarrow> a = a' \<and> b = b'"
proof (induction a arbitrary: a')
  case Nil
  then show ?case by (cases a') auto
next
  case (Cons x a)
  then show ?case by (cases a') auto
qed

lemma no_sep_neq: "c \<notin> set a \<Longrightarrow> a \<noteq> a' @ c # b"
  by auto

lemma strings_Join_Cons:
  "strings_Join (x # xs) sep = (if xs = [] then x else x @ sep @ strings_Join xs sep)"
  by (cases xs) simp_all

lemma strings_Join_inj:
  assumes "\<forall>x \<in> set xs. c \<notin> set x \<and> x \<noteq> []"
    and "\<forall>y \<in> set ys. c \<notin> set y \<and> y \<noteq> []"
    and "strings_Join xs [c] = strings_Join ys [c]"
  shows "xs = ys"
  using assms
proof (induction xs arbitrary: ys)
  case Nil
  then show ?case by (cases ys) (auto simp: strings_Join_Cons split: if_splits)
next
  case (Cons x xs)
  show ?case
  proof (cases ys)
    case Nil
    with Cons.prems show ?thesis by (auto simp: strings_Join_Cons split: if_splits)
  next
    case (Cons y ys')
    have cx: "c \<notin> set x" and cy: "c \<notin> set y"
      using Cons.prems Cons by auto
    show ?thesis
    proof (cases "xs = []")
      case True
      show ?thesis
      proof (cases "ys' = []")
        case True
        with \<open>xs = []\<close> Cons.prems Cons show ?thesis by simp
      next
        case False
        with \<open>xs = []\<close> Cons.prems(3) Cons have "x = y @ c # strings_Join ys' [c]"
          by (simp add: strings_Join_Cons)
        with cx show ?thesis by auto
      qed
    next
      case False
      show ?thesis
      proof (cases "ys' = []")
        case True
        with \<open>xs \<noteq> []\<close> Cons.prems(3) Cons have "y = x @ c # strings_Join xs [c]"
          by (simp add: strings_Join_Cons)
        with cy show ?thesis by auto
      next
        case F: False
        with False Cons.prems(3) Cons
        have "x @ c # strings_Join xs [c] = y @ c # strings_Join ys' [c]"
          by (simp add: strings_Join_Cons)
        from append_sep_split [OF cx cy this]
        have "x = y" and j: "strings_Join xs [c] = strings_Join ys' [c]" by simp_all
        have "xs = ys'"
          using Cons.prems(1,2) Cons j by (intro Cons.IH) auto
        with \<open>x = y\<close> Cons show ?thesis by simp
      qed
    qed
  qed
qed

lemma strings_Join_inj_lists:
  assumes "xs \<noteq> []" "ys \<noteq> []"
    and "\<forall>x \<in> set xs. c \<notin> set x" and "\<forall>y \<in> set ys. c \<notin> set y"
    and "strings_Join xs [c] = strings_Join ys [c]"
  shows "xs = ys"
  using assms
proof (induction xs arbitrary: ys)
  case Nil
  then show ?case by simp
next
  case (Cons x xs)
  from Cons.prems(2) obtain y ys' where ys: "ys = y # ys'" by (cases ys) auto
  have cx: "c \<notin> set x" and cy: "c \<notin> set y"
    using Cons.prems ys by auto
  show ?case
  proof (cases "xs = []")
    case True
    show ?thesis
    proof (cases "ys' = []")
      case True
      with \<open>xs = []\<close> Cons.prems ys show ?thesis by simp
    next
      case False
      with \<open>xs = []\<close> Cons.prems(5) ys have "x = y @ c # strings_Join ys' [c]"
        by (simp add: strings_Join_Cons)
      with cx show ?thesis by auto
    qed
  next
    case False
    show ?thesis
    proof (cases "ys' = []")
      case True
      with \<open>xs \<noteq> []\<close> Cons.prems(5) ys have "y = x @ c # strings_Join xs [c]"
        by (simp add: strings_Join_Cons)
      with cy show ?thesis by auto
    next
      case F: False
      with False Cons.prems(5) ys
      have "x @ c # strings_Join xs [c] = y @ c # strings_Join ys' [c]"
        by (simp add: strings_Join_Cons)
      from append_sep_split [OF cx cy this]
      have "x = y" and j: "strings_Join xs [c] = strings_Join ys' [c]" by simp_all
      have "xs = ys'"
        using Cons.prems(3,4) ys j False F by (intro Cons.IH) auto
      with \<open>x = y\<close> ys show ?thesis by simp
    qed
  qed
qed

lemma set_strings_Join:
  "set (strings_Join xs sep) \<subseteq> (\<Union>x \<in> set xs. set x) \<union> set sep"
  by (induction xs sep rule: strings_Join.induct) auto

lemma buildQueryPart_parameters:
  "buildQueryPart r =
     strings_Join (sorted_list_of_multiset (image_mset query_part (query_parameters r))) ''&''"
proof -
  have parts: "mset (map (\<lambda>(k, v). k @ ''='' @ strings_Join (sort v) '','') q)
        = image_mset query_part (mset (map (\<lambda>(k, v). (k, mset v)) q))"
    for q :: "(string \<times> string list) list"
    by (induction q) (auto simp: query_part_def)
  have "buildQueryPart r =
      strings_Join (sort (map (\<lambda>(k, v). k @ ''='' @ strings_Join (sort v) '','')
                           (url_Query (req_URL r)))) ''&''"
    by (simp only: buildQueryPart_def Let_def)
  also have "\<dots> = strings_Join (sorted_list_of_multiset
      (mset (map (\<lambda>(k, v). k @ ''='' @ strings_Join (sort v) '','') (url_Query (req_URL r))))) ''&''"
    by (simp only: sorted_list_of_multiset_mset)
  finally show ?thesis
    by (simp only: parts query_parameters_def)
qed

lemma buildVaryHeadersPart_cong:
  assumes "list_all (\<lambda>key. header_Get (req_Header r1) key = header_Get (req_Header r2) key) hs"
  shows "buildVaryHeadersPart r1 hs = buildVaryHeadersPart r2 hs"
proof -
  have eq: "map (\<lambda>key. if header_Get (req_Header r1) key \<noteq> []
                    then [key @ '':'' @ header_Get (req_Header r1) key] else []) hs
      = map (\<lambda>key. if header_Get (req_Header r2) key \<noteq> []
                    then [key @ '':'' @ header_Get (req_Header r2) key] else []) hs"
    using assms by (induction hs) auto
  show ?thesis unfolding buildVaryHeadersPart_def Let_def eq by (rule refl)
qed

lemma same_key_inputs_base:
  assumes "same_key_inputs r1 r2 hs"
  shows "cacheKeyBase r1 hs = cacheKeyBase r2 hs"
  using assms buildVaryHeadersPart_cong [of r1 r2 hs]
  by (simp add: same_key_inputs_def cacheKeyBase_def buildURLPart_def buildQueryPart_parameters)

lemma headersParts_set:
  "set (concat (map (\<lambda>key. if g key \<noteq> [] then [key @ '':'' @ g key] else []) hs))
   = {key @ '':'' @ g key | key. key \<in> set hs \<and> g key \<noteq> []}"
  by (induction hs) auto

lemma buildVaryHeadersPart_inj:
  assumes safe1: "list_all (\<lambda>key. CHR '':'' \<notin> set key \<and> CHR ''|'' \<notin> set key
            \<and> CHR ''|'' \<notin> set (header_Get (req_Header r1) key)) hs"
    and safe2: "list_all (\<lambda>key. CHR '':'' \<notin> set key \<and> CHR ''|'' \<notin> set key
            \<and> CHR ''|'' \<notin> set (header_Get (req_Header r2) key)) hs"
    and eq: "buildVaryHeadersPart r1 hs = buildVaryHeadersPart r2 hs"
  shows "list_all (\<lambda>key. header_Get (req_Header r1) key = header_Get (req_Header r2) key) hs"
proof -
  define g1 where "g1 = header_Get (req_Header r1)"
  define g2 where "g2 = header_Get (req_Header r2)"
  define P1 where "P1 = concat (map (\<lambda>key. if g1 key \<noteq> [] then [key @ '':'' @ g1 key] else []) hs)"
  define P2 where "P2 = concat (map (\<lambda>key. if g2 key \<noteq> [] then [key @ '':'' @ g2 key] else []) hs)"
  have s1: "set P1 = {key @ '':'' @ g1 key | key. key \<in> set hs \<and> g1 key \<noteq> []}"
    unfolding P1_def by (rule headersParts_set)
  have s2: "set P2 = {key @ '':'' @ g2 key | key. key \<in> set hs \<and> g2 key \<noteq> []}"
    unfolding P2_def by (rule headersParts_set)
  have names: "\<forall>key \<in> set hs. CHR '':'' \<notin> set key \<and> CHR ''|'' \<notin> set key"
    using safe1 by (auto simp: list_all_iff)
  have v1: "\<forall>key \<in> set hs. CHR ''|'' \<notin> set (g1 key)"
    using safe1 by (auto simp: list_all_iff g1_def)
  have v2: "\<forall>key \<in> set hs. CHR ''|'' \<notin> set (g2 key)"
    using safe2 by (auto simp: list_all_iff g2_def)
  have e1: "\<forall>x \<in> set P1. CHR ''|'' \<notin> set x \<and> x \<noteq> []"
    unfolding s1 using names v1 by auto
  have e2: "\<forall>x \<in> set P2. CHR ''|'' \<notin> set x \<and> x \<noteq> []"
    unfolding s2 using names v2 by auto
  have "strings_Join P1 [CHR ''|''] = strings_Join P2 [CHR ''|'']"
    using eq unfolding buildVaryHeadersPart_def Let_def P1_def P2_def g1_def g2_def .
  with e1 e2 have "P1 = P2" by (rule strings_Join_inj)
  then have sets: "set P1 = set P2" by simp
  have "g1 key = g2 key" if key: "key \<in> set hs" for key
  proof -
    have colon: "CHR '':'' \<notin> set key" using names key by simp
    have forward: "g1 key = g2 key" if "g1 key \<noteq> []"
    proof -
      have "key @ '':'' @ g1 key \<in> set P1" unfolding s1 using key that by blast
      then have "key @ '':'' @ g1 key \<in> set P2" using sets by simp
      then obtain k' where k': "k' \<in> set hs" "key @ '':'' @ g1 key = k' @ '':'' @ g2 k'"
        unfolding s2 by blast
      have c': "CHR '':'' \<notin> set k'" using names k'(1) by simp
      have eqn: "key @ CHR '':'' # g1 key = k' @ CHR '':'' # g2 k'" using k'(2) by simp
      from append_sep_split [OF colon c' eqn] have kk: "k' = key" and gg: "g1 key = g2 k'"
        by blast+
      show ?thesis using gg by (simp only: kk)
    qed
    have backward: "g2 key = g1 key" if "g2 key \<noteq> []"
    proof -
      have "key @ '':'' @ g2 key \<in> set P2" unfolding s2 using key that by blast
      then have "key @ '':'' @ g2 key \<in> set P1" using sets by simp
      then obtain k' where k': "k' \<in> set hs" "key @ '':'' @ g2 key = k' @ '':'' @ g1 k'"
        unfolding s1 by blast
      have c': "CHR '':'' \<notin> set k'" using names k'(1) by simp
      have eqn: "key @ CHR '':'' # g2 key = k' @ CHR '':'' # g1 k'" using k'(2) by simp
      from append_sep_split [OF colon c' eqn] have kk: "k' = key" and gg: "g2 key = g1 k'"
        by blast+
      show ?thesis using gg by (simp only: kk)
    qed
    show ?thesis
    proof (cases "g1 key = []")
      case False
      then show ?thesis by (rule forward)
    next
      case True
      show ?thesis
      proof (cases "g2 key = []")
        case True
        with \<open>g1 key = []\<close> show ?thesis by simp
      next
        case False
        then have "g2 key = g1 key" by (rule backward)
        then show ?thesis by simp
      qed
    qed
  qed
  then show ?thesis
    by (simp add: list_all_iff g1_def g2_def)
qed

section \<open>Lemmas on numbers, headers and the cache middleware\<close>

lemma digit_table_isDigit: "d < 10 \<Longrightarrow> isDigit (''0123456789'' ! d)"
proof -
  assume "d < 10"
  then have "d \<in> {0,1,2,3,4,5,6,7,8,9}" by auto
  then show ?thesis by (auto simp: isDigit_def)
qed

lemma digit_table_val: "d < 10 \<Longrightarrow> of_char (''0123456789'' ! d) - (48::nat) = d"
proof -
  assume "d < 10"
  then have "d \<in> {0,1,2,3,4,5,6,7,8,9}" by auto
  then show ?thesis by auto
qed

lemma decimal_isDigit: "list_all isDigit (decimal n)"
proof (induction n rule: decimal.induct)
  case (1 n)
  show ?case
  proof (cases "n < 10")
    case True
    then show ?thesis by (simp add: decimal.simps [of n] digit_table_isDigit)
  next
    case False
    with 1 show ?thesis by (simp add: decimal.simps [of n] digit_table_isDigit)
  qed
qed

lemma decimal_not_Nil: "decimal n \<noteq> []"
  by (subst decimal.simps) simp

lemma digits_val_snoc: "digits_val (ds @ [c]) = 10 * digits_val ds + (of_char c - 48)"
  by (simp add: digits_val_def)

lemma digits_val_decimal: "digits_val (decimal n) = n"
proof (induction n rule: decimal.induct)
  case (1 n)
  show ?case
  proof (cases "n < 10")
    case True
    then show ?thesis by (simp add: decimal.simps [of n] digits_val_def digit_table_val)
  next
    case False
    with 1 show ?thesis
      by (simp add: decimal.simps [of n] digits_val_snoc digit_table_val)
  qed
qed

lemma length_decimal: "n < 10 ^ k \<Longrightarrow> 0 < k \<Longrightarrow> length (decimal n) \<le> k"
proof (induction k arbitrary: n)
  case 0
  then show ?case by simp
next
  case (Suc k)
  show ?case
  proof (cases "n < 10")
    case True
    then show ?thesis by (simp add: decimal.simps [of n])
  next
    case False
    then have "0 < k" using Suc.prems by (cases k) auto
    moreover have "n div 10 < 10 ^ k" using Suc.prems by (simp add: less_mult_imp_div_less mult.commute)
    ultimately have "length (decimal (n div 10)) \<le> k" by (rule Suc.IH [rotated])
    with False show ?thesis by (simp add: decimal.simps [of n])
  qed
qed

lemma stripPrefix_append: "stripPrefix p (p @ s) = Some s"
  by (induction p) auto

lemma takeWhile_digits: "list_all isDigit ds \<Longrightarrow> takeWhile isDigit (ds @ '', public'') = ds"
  by (induction ds) (auto simp: isDigit_def)

lemma FindStringSubmatch_rewritten:
  "list_all isDigit ds \<Longrightarrow> ds \<noteq> [] \<Longrightarrow>
   FindStringSubmatch_max_age (''max-age='' @ ds @ '', public'') = Some ds"
  using stripPrefix_append [of "''max-age=''" "ds @ '', public''"]
  by (simp add: takeWhile_digits)

lemma strconv_Atoi_decimal: "int n < 2 ^ 63 \<Longrightarrow> strconv_Atoi (decimal n) = Inr (int n)"
proof -
  assume bound: "int n < 2 ^ 63"
  obtain c cs where dec: "decimal n = c # cs"
    using decimal_not_Nil [of n] by (cases "decimal n") auto
  have "isDigit c" using decimal_isDigit [of n] by (simp add: dec)
  then have "c \<noteq> CHR ''-''" "c \<noteq> CHR ''+''" by (auto simp: isDigit_def)
  then show ?thesis
    using bound decimal_isDigit [of n] digits_val_decimal [of n]
    by (simp add: strconv_Atoi_def dec)
qed

lemma NewCacheMiddleware_paths:
  "NewCacheMiddleware lib cfg nxt req w =
     (case cache_path_of lib cfg req w of
        Bypass w1 \<Rightarrow> nxt req w1
      | Hit sc w1 \<Rightarrow> (Return (Some (cache_hit_response sc req), None), w1)
      | Miss cacheKey w1 \<Rightarrow>
          (case nxt req w1 of
             (Panic p, w2) \<Rightarrow> (Panic p, w2)
           | (Return (resp, Some err), w2) \<Rightarrow>
               (Return (resp, Some (Errorf ''error executing request'' err)), w2)
           | (Return (None, None), w2) \<Rightarrow>
               (Panic ''invalid memory address or nil pointer dereference'', w2)
           | (Return (Some resp, None), w2) \<Rightarrow>
               if 200 \<le> resp_StatusCode resp \<and> resp_StatusCode resp < 300
               then cache_store_response lib cfg cacheKey req resp w2
               else (Return (Some resp, None), w2)))"
  by (simp add: NewCacheMiddleware_def cache_path_of_def Let_def
      split: option.splits prod.splits sum.splits)

lemma canonical_Cache_Control: "CanonicalMIMEHeaderKey ''Cache-Control'' = ''Cache-Control''"
  by code_simp

lemma canonical_X_Cache: "CanonicalMIMEHeaderKey ''X-Cache'' = ''X-Cache''"
  by code_simp

lemma header_Get_Set_same: "header_Get (header_Set h k v) k = v"
  by (simp add: header_Get_def header_Set_def update_conv')

lemma header_Get_Set_other:
  "CanonicalMIMEHeaderKey k' \<noteq> CanonicalMIMEHeaderKey k \<Longrightarrow>
   header_Get (header_Set h k v) k' = header_Get h k'"
  by (simp add: header_Get_def header_Set_def update_conv')

lemma Cache_Control_neq_X_Cache:
  "CanonicalMIMEHeaderKey ''Cache-Control'' \<noteq> CanonicalMIMEHeaderKey ''X-Cache''"
  by (simp add: canonical_Cache_Control canonical_X_Cache)

lemma sint_seconds:
  assumes "0 \<le> n" "n < 1000000"
  shows "sint (time_Second * word_of_int n :: 64 word) = 1000000000 * n"
proof -
  have eq: "time_Second * word_of_int n = (word_of_int (1000000000 * n) :: 64 word)"
    by (simp add: time_Second_def)
  have "signed_take_bit 63 (1000000000 * n) = 1000000000 * n"
    using assms by (intro signed_take_bit_int_eq_self) auto
  then have "sint (word_of_int (1000000000 * n) :: 64 word) = 1000000000 * n"
    by (simp only: sint_sbintrunc') simp
  then show ?thesis
    by (simp only: eq)
qed

lemma fmt_float_whole_small:
  assumes "0 \<le> n" "n < 1000000"
  shows "fmt_float_whole n = decimal (nat n)"
proof -
  have "nat n < 10 ^ 6" using assms by simp
  then have "length (decimal (nat n)) \<le> 6" by (rule length_decimal) simp
  then show ?thesis using assms by (simp add: fmt_float_whole_def Let_def)
qed

lemma fmt_Seconds_whole:
  assumes "0 \<le> n" "n < 1000000"
  shows "fmt_Seconds lib (time_Second * word_of_int n) = decimal (nat n)"
  using assms by (simp add: fmt_Seconds_def sint_seconds fmt_float_whole_small)

lemma getCacheControlHeaderValue_rewritten:
  assumes "int n < 2 ^ 63"
  shows "getCacheControlHeaderValue
           (resp\<lparr>resp_Header := header_Set h ''Cache-Control'' (''max-age='' @ decimal n @ '', public'')\<rparr>)
         = int n"
proof -
  have "FindStringSubmatch_max_age (''max-age='' @ decimal n @ '', public'') = Some (decimal n)"
    by (rule FindStringSubmatch_rewritten) (simp_all add: decimal_isDigit decimal_not_Nil)
  then show ?thesis
    using assms
    by (simp add: getCacheControlHeaderValue_def header_Get_Set_same strconv_Atoi_decimal del: FindStringSubmatch_max_age.simps)
qed

lemma cache_store_response_readable:
  assumes "resp_Body resp = Body b"
  shows "cache_store_response lib cfg cacheKey req resp w =
    (let original = getCacheControlHeaderValue resp;
         ttl = (if cfg_OverrideTTL cfg then cfg_TTL cfg else time_Second * word_of_int original);
         rewritten = resp\<lparr>resp_Header := header_Set (resp_Header resp) ''Cache-Control''
                       (''max-age='' @ fmt_Seconds lib ttl @ '', public'')\<rparr>
     in (Return (Some (rewritten\<lparr>resp_Header := header_Set (resp_Header rewritten) ''X-Cache'' ''MISS''\<rparr>), None),
         w\<lparr>goroutines := goroutines w @
            [\<lparr>set_ctx = req_Context req, set_key = cacheKey,
              set_text = Marshalled
                \<lparr>sc_Status = resp_Status resp, sc_StatusCode = resp_StatusCode resp,
                 sc_Proto = resp_Proto resp, sc_ResponseHeaders = resp_Header rewritten,
                 sc_Body = b, sc_CacheControlValue = getCacheControlHeaderValue rewritten,
                 sc_Policy = \<lparr>policy_MaxAge = original, policy_Headers = cfg_Headers cfg\<rparr>\<rparr>,
              set_expiration = ttl\<rparr>]\<rparr>))"
proof -
  have same: "r\<lparr>resp_Body := Body b\<rparr> = r" if "resp_Body r = Body b" for r :: response
    using that by (cases r) simp
  show ?thesis
    using assms
    by (simp add: cache_store_response_def responseToJSON_def Let_def same getCacheControlHeaderValue_def)
qed

lemma cache_store_response_unreadable:
  assumes "resp_Body resp = FailingBody e"
  shows "cache_store_response lib cfg cacheKey req resp w =
    (let original = getCacheControlHeaderValue resp;
         ttl = (if cfg_OverrideTTL cfg then cfg_TTL cfg else time_Second * word_of_int original);
         rewritten = resp\<lparr>resp_Header := header_Set (resp_Header resp) ''Cache-Control''
                       (''max-age='' @ fmt_Seconds lib ttl @ '', public'')\<rparr>
     in (Return (Some (rewritten\<lparr>resp_Header := header_Set (resp_Header rewritten) ''X-Cache'' ''MISS''\<rparr>),
                 Some (Errorf ''error serializing response for cache'' (Errorf ''failed to read response body'' e))),
         w))"
  using assms
  by (simp add: cache_store_response_def responseToJSON_def Let_def)

lemma takeWhile_isDigit_all: "list_all isDigit (takeWhile isDigit rest)"
  by (induction rest) auto

lemma FindStringSubmatch_digits:
  "FindStringSubmatch_max_age s = Some ds \<Longrightarrow> ds \<noteq> [] \<and> list_all isDigit ds"
proof (induction s rule: FindStringSubmatch_max_age.induct)
  case 1
  then show ?case by simp
next
  case (2 c cs)
  then show ?case
    by (auto split: option.splits if_splits simp: takeWhile_isDigit_all)
qed

lemma strconv_Atoi_digits_nonneg:
  assumes "ds \<noteq> []" "list_all isDigit ds" "strconv_Atoi ds = Inr a"
  shows "0 \<le> a"
proof -
  obtain c cs where ds: "ds = c # cs" using assms(1) by (cases ds) auto
  have "isDigit c" using assms(2) by (simp add: ds)
  then have "c \<noteq> CHR ''-''" "c \<noteq> CHR ''+''" by (auto simp: isDigit_def)
  then show ?thesis
    using assms(2,3) by (auto simp: strconv_Atoi_def ds Let_def split: if_splits)
qed

lemma getCacheControlHeaderValue_nonneg: "0 \<le> getCacheControlHeaderValue resp"
proof (cases "FindStringSubmatch_max_age (header_Get (resp_Header resp) ''Cache-Control'')")
  case None
  then show ?thesis by (simp add: getCacheControlHeaderValue_def)
next
  case (Some ds)
  note digits = FindStringSubmatch_digits [OF Some]
  show ?thesis
  proof (cases "strconv_Atoi ds")
    case (Inl e)
    with Some show ?thesis by (simp add: getCacheControlHeaderValue_def)
  next
    case (Inr a)
    then have "0 \<le> a" using digits strconv_Atoi_digits_nonneg by blast
    with Some Inr show ?thesis by (simp add: getCacheControlHeaderValue_def)
  qed
qed

section \<open>Properties of the cache middleware\<close>

lemma NewCacheMiddleware_miss_2xx:
  assumes "cache_path_of lib cfg req w = Miss cacheKey w1"
    and "nxt req w1 = (Return (Some resp, None), w2)"
    and "200 \<le> resp_StatusCode resp" "resp_StatusCode resp < 300"
  shows "NewCacheMiddleware lib cfg nxt req w = cache_store_response lib cfg cacheKey req resp w2"
  using assms by (simp add: NewCacheMiddleware_paths)

lemma fmt_Seconds_60: "fmt_Seconds lib 60000000000 = ''60''"
  by (simp add: fmt_Seconds_def fmt_float_whole_def decimal.simps)

lemma fmt_Seconds_30: "fmt_Seconds lib 30000000000 = ''30''"
  by (simp add: fmt_Seconds_def fmt_float_whole_def decimal.simps)

lemma getCacheControlHeaderValue_60:
  "header_Get (resp_Header resp) ''Cache-Control'' = ''max-age=60'' \<Longrightarrow>
   getCacheControlHeaderValue resp = 60"
  by (simp add: getCacheControlHeaderValue_def strconv_Atoi_def isDigit_def digits_val_def)

text \<open>
  Scenario B at its own values. A miss whose inner response is 200 with
  \<^verbatim>\<open>Cache-Control: max-age=60\<close> (and a readable body): the \<^verbatim>\<open>Set\<close> call of the
  started goroutine has the expiration 60 seconds when the override flag is off and the
  configured TTL when it is on; the returned response carries \<^verbatim>\<open>max-age=60, public\<close>
  when the flag is off and \<^verbatim>\<open>max-age=30, public\<close> for an override of 30 seconds. For
  any other override the header is only known as the rendering \<open>fmt_Seconds\<close> of the
  TTL, which the theorem after this one evaluates for 30 days.
\<close>

theorem NewCacheMiddleware_scenario_B:
  assumes miss: "cache_path_of lib cfg req w = Miss cacheKey w1"
    and inner: "nxt req w1 = (Return (Some resp, None), w2)"
    and status: "resp_StatusCode resp = 200"
    and cc: "header_Get (resp_Header resp) ''Cache-Control'' = ''max-age=60''"
    and body: "resp_Body resp = Body b"
  shows "\<exists>resp' sc.
      NewCacheMiddleware lib cfg nxt req w =
        (Return (Some resp', None),
         w2\<lparr>goroutines := goroutines w2 @
            [\<lparr>set_ctx = req_Context req, set_key = cacheKey, set_text = Marshalled sc,
              set_expiration = (if cfg_OverrideTTL cfg then cfg_TTL cfg else 60 * time_Second)\<rparr>]\<rparr>)
      \<and> header_Get (resp_Header resp') ''Cache-Control'' =
          (if cfg_OverrideTTL cfg
           then (if cfg_TTL cfg = 30 * time_Second then ''max-age=30, public''
                 else ''max-age='' @ fmt_Seconds lib (cfg_TTL cfg) @ '', public'')
           else ''max-age=60, public'')"
proof -
  have store: "NewCacheMiddleware lib cfg nxt req w = cache_store_response lib cfg cacheKey req resp w2"
    using miss inner status by (intro NewCacheMiddleware_miss_2xx) simp_all
  have orig: "getCacheControlHeaderValue resp = 60"
    using cc by (rule getCacheControlHeaderValue_60)
  show ?thesis
    unfolding store cache_store_response_readable [OF body]
    by (auto simp: Let_def orig time_Second_def fmt_Seconds_60 fmt_Seconds_30 header_Get_Set_same
        header_Get_Set_other Cache_Control_neq_X_Cache)
qed


lemma scenario_B_path:
  "cache_path_of lib (cache_config ov) (get_request target h) empty_world =
     Miss (getCacheKey lib (get_request target h) [''Authorization'']) empty_world"
  by (simp add: cache_path_of_def cache_config_def get_request_def empty_world_def
      RedisClient_def RedisClient_Get_def Let_def)

lemma scenario_B_header:
  "header_Get (resp_Header scenario_B_response) ''Cache-Control'' = ''max-age=60''"
  by (simp add: header_Get_def scenario_B_response_def canonical_Cache_Control)

theorem NewCacheMiddleware_scenario_B_witness:
  "\<forall>lib.
     (\<exists>resp' sc.
        NewCacheMiddleware lib (cache_config False) (respond_with scenario_B_response)
          scenario_B_request empty_world =
          (Return (Some resp', None),
           empty_world\<lparr>network := [scenario_B_request],
             goroutines :=
               [\<lparr>set_ctx = 0, set_key = getCacheKey lib scenario_B_request [''Authorization''],
                 set_text = Marshalled sc, set_expiration = 60 * time_Second\<rparr>]\<rparr>)
        \<and> header_Get (resp_Header resp') ''Cache-Control'' = ''max-age=60, public'')
   \<and> (\<exists>resp' sc.
        NewCacheMiddleware lib (cache_config True) (respond_with scenario_B_response)
          scenario_B_request empty_world =
          (Return (Some resp', None),
           empty_world\<lparr>network := [scenario_B_request],
             goroutines :=
               [\<lparr>set_ctx = 0, set_key = getCacheKey lib scenario_B_request [''Authorization''],
                 set_text = Marshalled sc, set_expiration = 30 * time_Second\<rparr>]\<rparr>)
        \<and> header_Get (resp_Header resp') ''Cache-Control'' = ''max-age=30, public'')"
proof
  fix lib
  have path: "cache_path_of lib (cache_config ov) scenario_B_request empty_world =
      Miss (getCacheKey lib scenario_B_request [''Authorization'']) empty_world" for ov
    unfolding scenario_B_request_def by (rule scenario_B_path)
  have inner: "respond_with scenario_B_response scenario_B_request empty_world =
      (Return (Some scenario_B_response, None), empty_world\<lparr>network := [scenario_B_request]\<rparr>)"
    by (simp add: respond_with_def empty_world_def)
  have status: "resp_StatusCode scenario_B_response = 200"
    by (simp add: scenario_B_response_def)
  have body: "resp_Body scenario_B_response = Body ''[]''"
    by (simp add: scenario_B_response_def)
  have ctx: "req_Context scenario_B_request = 0"
    by (simp add: scenario_B_request_def get_request_def)
  note inst = NewCacheMiddleware_scenario_B
    [where nxt = "respond_with scenario_B_response" and req = scenario_B_request,
     OF path inner status scenario_B_header body]
  show "(\<exists>resp' sc.
        NewCacheMiddleware lib (cache_config False) (respond_with scenario_B_response)
          scenario_B_request empty_world =
          (Return (Some resp', None),
           empty_world\<lparr>network := [scenario_B_request],
             goroutines :=
               [\<lparr>set_ctx = 0, set_key = getCacheKey lib scenario_B_request [''Authorization''],
                 set_text = Marshalled sc, set_expiration = 60 * time_Second\<rparr>]\<rparr>)
        \<and> header_Get (resp_Header resp') ''Cache-Control'' = ''max-age=60, public'')
   \<and> (\<exists>resp' sc.
        NewCacheMiddleware lib (cache_config True) (respond_with scenario_B_response)
          scenario_B_request empty_world =
          (Return (Some resp', None),
           empty_world\<lparr>network := [scenario_B_request],
             goroutines :=
               [\<lparr>set_ctx = 0, set_key = getCacheKey lib scenario_B_request [''Authorization''],
                 set_text = Marshalled sc, set_expiration = 30 * time_Second\<rparr>]\<rparr>)
        \<and> header_Get (resp_Header resp') ''Cache-Control'' = ''max-age=30, public'')"
    using inst [of False] inst [of True]
    by (simp add: ctx cache_config_def empty_world_def)
qed

lemma fmt_Seconds_30_days: "fmt_Seconds lib 2592000000000000 = ''2.592e+06''"
  by (simp add: fmt_Seconds_def fmt_float_whole_def decimal.simps)

lemma reread_30_days:
  "getCacheControlHeaderValue (r\<lparr>resp_Header := header_Set h ''Cache-Control'' ''max-age=2.592e+06, public''\<rparr>) = 2"
  by (simp add: getCacheControlHeaderValue_def header_Get_Set_same strconv_Atoi_def isDigit_def digits_val_def)

lemma reread_30_days_marked:
  "getCacheControlHeaderValue
     (r\<lparr>resp_Header := header_Set (header_Set h ''Cache-Control'' ''max-age=2.592e+06, public'')
                              ''X-Cache'' v\<rparr>) = 2"
  by (simp add: getCacheControlHeaderValue_def header_Get_Set_same header_Get_Set_other
      Cache_Control_neq_X_Cache strconv_Atoi_def isDigit_def digits_val_def)

lemma getCacheControlHeaderValue_X_Cache:
  "getCacheControlHeaderValue (r\<lparr>resp_Header := header_Set (resp_Header r) ''X-Cache'' v\<rparr>)
   = getCacheControlHeaderValue r"
  by (simp add: getCacheControlHeaderValue_def header_Get_Set_other Cache_Control_neq_X_Cache)

text \<open>
  C8 (the code at the failing input). Scenario B with the override flag on and a
  configured TTL of 30 days (2592000 seconds). The \<^verbatim>\<open>Set\<close> call has the expiration of
  30 days, but the rewritten header is \<^verbatim>\<open>max-age=2.592e+06, public\<close>, not
  \<^verbatim>\<open>max-age=2592000, public\<close>: line 136 prints the \<^verbatim>\<open>float64\<close> of
  \<^verbatim>\<open>ttl.Seconds()\<close> with \<^verbatim>\<open>%v\<close>, which switches to the exponent form from \<open>10^6\<close>
  on. The middleware's own \<open>getCacheControlHeaderValue\<close> reads this header back as 2,
  and that is the \<^verbatim>\<open>cacheControlValue\<close> of the stored record.
\<close>

theorem NewCacheMiddleware_override_30_days:
  "\<forall>lib. \<exists>resp' sc.
     NewCacheMiddleware lib ((cache_config True)\<lparr>cfg_TTL := 2592000 * time_Second\<rparr>)
       (respond_with scenario_B_response) scenario_B_request empty_world =
       (Return (Some resp', None),
        empty_world\<lparr>network := [scenario_B_request],
          goroutines :=
            [\<lparr>set_ctx = 0, set_key = getCacheKey lib scenario_B_request [''Authorization''],
              set_text = Marshalled sc, set_expiration = 2592000 * time_Second\<rparr>]\<rparr>)
     \<and> header_Get (resp_Header resp') ''Cache-Control'' = ''max-age=2.592e+06, public''
     \<and> header_Get (resp_Header resp') ''Cache-Control'' \<noteq> ''max-age=2592000, public''
     \<and> getCacheControlHeaderValue resp' = 2
     \<and> sc_CacheControlValue sc = 2"
proof
  fix lib
  let ?cfg = "(cache_config True)\<lparr>cfg_TTL := 2592000 * time_Second\<rparr>"
  have path: "cache_path_of lib ?cfg scenario_B_request empty_world =
      Miss (getCacheKey lib scenario_B_request [''Authorization'']) empty_world"
    by (simp add: cache_path_of_def cache_config_def scenario_B_request_def get_request_def
        empty_world_def RedisClient_def RedisClient_Get_def Let_def)
  have inner: "respond_with scenario_B_response scenario_B_request empty_world =
      (Return (Some scenario_B_response, None), empty_world\<lparr>network := [scenario_B_request]\<rparr>)"
    by (simp add: respond_with_def empty_world_def)
  have status: "200 \<le> resp_StatusCode scenario_B_response" "resp_StatusCode scenario_B_response < 300"
    by (simp_all add: scenario_B_response_def)
  have body: "resp_Body scenario_B_response = Body ''[]''"
    by (simp add: scenario_B_response_def)
  have ctx: "req_Context scenario_B_request = 0"
    by (simp add: scenario_B_request_def get_request_def)
  have store: "NewCacheMiddleware lib ?cfg (respond_with scenario_B_response) scenario_B_request empty_world
      = cache_store_response lib ?cfg (getCacheKey lib scenario_B_request [''Authorization''])
          scenario_B_request scenario_B_response (empty_world\<lparr>network := [scenario_B_request]\<rparr>)"
    using path inner status by (rule NewCacheMiddleware_miss_2xx)
  show "\<exists>resp' sc.
     NewCacheMiddleware lib ?cfg
       (respond_with scenario_B_response) scenario_B_request empty_world =
       (Return (Some resp', None),
        empty_world\<lparr>network := [scenario_B_request],
          goroutines :=
            [\<lparr>set_ctx = 0, set_key = getCacheKey lib scenario_B_request [''Authorization''],
              set_text = Marshalled sc, set_expiration = 2592000 * time_Second\<rparr>]\<rparr>)
     \<and> header_Get (resp_Header resp') ''Cache-Control'' = ''max-age=2.592e+06, public''
     \<and> header_Get (resp_Header resp') ''Cache-Control'' \<noteq> ''max-age=2592000, public''
     \<and> getCacheControlHeaderValue resp' = 2
     \<and> sc_CacheControlValue sc = 2"
    unfolding store cache_store_response_readable [OF body]
    by (simp add: Let_def cache_config_def time_Second_def fmt_Seconds_30_days ctx empty_world_def
        header_Get_Set_same header_Get_Set_other Cache_Control_neq_X_Cache reread_30_days reread_30_days_marked
        getCacheControlHeaderValue_X_Cache)
qed

lemma reread_whole_seconds:
  assumes "0 \<le> n" "n < 1000000"
  shows "getCacheControlHeaderValue
           (resp\<lparr>resp_Header := header_Set h ''Cache-Control''
               (''max-age='' @ fmt_Seconds lib (time_Second * word_of_int n) @ '', public'')\<rparr>) = n"
proof -
  have bound: "int (nat n) < 2 ^ 63" using assms by simp
  have fmt: "fmt_Seconds lib (time_Second * word_of_int n) = decimal (nat n)"
    using assms by (rule fmt_Seconds_whole)
  have "getCacheControlHeaderValue
           (resp\<lparr>resp_Header := header_Set h ''Cache-Control''
               (''max-age='' @ decimal (nat n) @ '', public'')\<rparr>) = int (nat n)"
    using bound by (rule getCacheControlHeaderValue_rewritten)
  then show ?thesis using assms(1) by (simp add: fmt)
qed


text \<open>
  C3 (amended). For every 2xx response with a readable body that is cached on a miss,
  the record handed to the store keeps the original max-age of the upstream
  \<^verbatim>\<open>Cache-Control\<close> header (\<open>getCacheControlHeaderValue\<close> of the inner response: 0 if
  absent or malformed) in \<^verbatim>\<open>policy.maxAge\<close>. Its \<^verbatim>\<open>cacheControlValue\<close> is what
  \<open>getCacheControlHeaderValue\<close> reads from the rewritten header of the returned response,
  that is the effective TTL: the original max-age when the override flag is off (for an
  original below \<open>10^6\<close> seconds), and the configured TTL when the flag is on (for a TTL of
  a whole number \<open>n\<close> of seconds, \<open>0 \<le> n < 10^6\<close>).
\<close>

theorem NewCacheMiddleware_record_max_age:
  assumes miss: "cache_path_of lib cfg req w = Miss cacheKey w1"
    and inner: "nxt req w1 = (Return (Some resp, None), w2)"
    and status: "200 \<le> resp_StatusCode resp" "resp_StatusCode resp < 300"
    and body: "resp_Body resp = Body b"
  shows "\<exists>resp' sc.
      NewCacheMiddleware lib cfg nxt req w =
        (Return (Some resp', None),
         w2\<lparr>goroutines := goroutines w2 @
            [\<lparr>set_ctx = req_Context req, set_key = cacheKey, set_text = Marshalled sc,
              set_expiration =
                (if cfg_OverrideTTL cfg then cfg_TTL cfg
                 else time_Second * word_of_int (getCacheControlHeaderValue resp))\<rparr>]\<rparr>)
      \<and> policy_MaxAge (sc_Policy sc) = getCacheControlHeaderValue resp
      \<and> sc_CacheControlValue sc = getCacheControlHeaderValue resp'
      \<and> (\<not> cfg_OverrideTTL cfg \<and> getCacheControlHeaderValue resp < 1000000
           \<longrightarrow> sc_CacheControlValue sc = getCacheControlHeaderValue resp)
      \<and> (\<forall>n. cfg_OverrideTTL cfg \<and> cfg_TTL cfg = time_Second * word_of_int n
                 \<and> 0 \<le> n \<and> n < 1000000
           \<longrightarrow> sc_CacheControlValue sc = n)"
proof -
  define ttl where "ttl = (if cfg_OverrideTTL cfg then cfg_TTL cfg
                           else time_Second * word_of_int (getCacheControlHeaderValue resp))"
  define rewritten where "rewritten = resp\<lparr>resp_Header :=
      header_Set (resp_Header resp) ''Cache-Control'' (''max-age='' @ fmt_Seconds lib ttl @ '', public'')\<rparr>"
  define marked where "marked = rewritten\<lparr>resp_Header := header_Set (resp_Header rewritten) ''X-Cache'' ''MISS''\<rparr>"
  define sc where "sc =
      \<lparr>sc_Status = resp_Status resp, sc_StatusCode = resp_StatusCode resp,
       sc_Proto = resp_Proto resp, sc_ResponseHeaders = resp_Header rewritten,
       sc_Body = b, sc_CacheControlValue = getCacheControlHeaderValue rewritten,
       sc_Policy = \<lparr>policy_MaxAge = getCacheControlHeaderValue resp,
                    policy_Headers = cfg_Headers cfg\<rparr>\<rparr>"
  have store: "NewCacheMiddleware lib cfg nxt req w = cache_store_response lib cfg cacheKey req resp w2"
    using miss inner status by (rule NewCacheMiddleware_miss_2xx)
  have result: "NewCacheMiddleware lib cfg nxt req w =
      (Return (Some marked, None),
       w2\<lparr>goroutines := goroutines w2 @
          [\<lparr>set_ctx = req_Context req, set_key = cacheKey, set_text = Marshalled sc,
            set_expiration =
              (if cfg_OverrideTTL cfg then cfg_TTL cfg
               else time_Second * word_of_int (getCacheControlHeaderValue resp))\<rparr>]\<rparr>)"
    unfolding store cache_store_response_readable [OF body] marked_def rewritten_def sc_def ttl_def Let_def
    by (rule refl)
  have policy: "policy_MaxAge (sc_Policy sc) = getCacheControlHeaderValue resp"
    unfolding sc_def by simp
  have parsed: "sc_CacheControlValue sc = getCacheControlHeaderValue marked"
    unfolding sc_def marked_def by (simp add: getCacheControlHeaderValue_X_Cache)
  have stored: "sc_CacheControlValue sc = getCacheControlHeaderValue rewritten"
    unfolding sc_def by simp
  have off: "\<not> cfg_OverrideTTL cfg \<and> getCacheControlHeaderValue resp < 1000000
           \<longrightarrow> sc_CacheControlValue sc = getCacheControlHeaderValue resp"
  proof
    assume a: "\<not> cfg_OverrideTTL cfg \<and> getCacheControlHeaderValue resp < 1000000"
    then have t: "ttl = time_Second * word_of_int (getCacheControlHeaderValue resp)"
      by (simp add: ttl_def)
    show "sc_CacheControlValue sc = getCacheControlHeaderValue resp"
      unfolding stored rewritten_def t
      using getCacheControlHeaderValue_nonneg [of resp] a
      by (intro reread_whole_seconds) simp_all
  qed
  have on: "\<forall>n. cfg_OverrideTTL cfg \<and> cfg_TTL cfg = time_Second * word_of_int n
                 \<and> 0 \<le> n \<and> n < 1000000 \<longrightarrow> sc_CacheControlValue sc = n"
  proof (intro allI impI)
    fix n
    assume a: "cfg_OverrideTTL cfg \<and> cfg_TTL cfg = time_Second * word_of_int n \<and> 0 \<le> n \<and> n < 1000000"
    then have t: "ttl = time_Second * word_of_int n"
      by (simp add: ttl_def)
    show "sc_CacheControlValue sc = n"
      unfolding stored rewritten_def t
      using a by (intro reread_whole_seconds) simp_all
  qed
  show ?thesis
    by (rule exI [of _ marked], rule exI [of _ sc]) (intro conjI result policy parsed off on)
qed


lemma scenario_B_miss:
  "cache_path_of lib (cache_config ov) scenario_B_request empty_world =
     Miss (getCacheKey lib scenario_B_request [''Authorization'']) empty_world"
  unfolding scenario_B_request_def by (rule scenario_B_path)

lemma scenario_B_inner:
  "respond_with scenario_B_response scenario_B_request empty_world =
     (Return (Some scenario_B_response, None), empty_world\<lparr>network := [scenario_B_request]\<rparr>)"
  by (simp add: respond_with_def empty_world_def)

lemma scenario_B_original: "getCacheControlHeaderValue scenario_B_response = 60"
  using scenario_B_header by (rule getCacheControlHeaderValue_60)

lemma scenario_B_body: "resp_Body scenario_B_response = Body ''[]''"
  by (simp add: scenario_B_response_def)

lemma scenario_B_status:
  "200 \<le> resp_StatusCode scenario_B_response" "resp_StatusCode scenario_B_response < 300"
  by (simp_all add: scenario_B_response_def)

lemma scenario_B_context: "req_Context scenario_B_request = 0"
  by (simp add: scenario_B_request_def get_request_def)

theorem NewCacheMiddleware_record_max_age_witness:
  "\<forall>lib. \<exists>resp' sc.
     NewCacheMiddleware lib (cache_config False) (respond_with scenario_B_response)
       scenario_B_request empty_world =
       (Return (Some resp', None),
        empty_world\<lparr>network := [scenario_B_request],
          goroutines :=
            [\<lparr>set_ctx = 0, set_key = getCacheKey lib scenario_B_request [''Authorization''],
              set_text = Marshalled sc, set_expiration = time_Second * 60\<rparr>]\<rparr>)
     \<and> policy_MaxAge (sc_Policy sc) = 60 \<and> sc_CacheControlValue sc = 60"
proof
  fix lib
  from NewCacheMiddleware_record_max_age
    [where nxt = "respond_with scenario_B_response" and req = scenario_B_request
       and lib = lib and cfg = "cache_config False",
     OF scenario_B_miss scenario_B_inner scenario_B_status scenario_B_body]
  obtain resp' sc where
    res: "NewCacheMiddleware lib (cache_config False) (respond_with scenario_B_response)
       scenario_B_request empty_world =
       (Return (Some resp', None),
        empty_world\<lparr>network := [scenario_B_request]\<rparr>
          \<lparr>goroutines := goroutines (empty_world\<lparr>network := [scenario_B_request]\<rparr>) @
            [\<lparr>set_ctx = req_Context scenario_B_request,
              set_key = getCacheKey lib scenario_B_request [''Authorization''],
              set_text = Marshalled sc,
              set_expiration =
                (if cfg_OverrideTTL (cache_config False) then cfg_TTL (cache_config False)
                 else time_Second * word_of_int (getCacheControlHeaderValue scenario_B_response))\<rparr>]\<rparr>)"
    and pol: "policy_MaxAge (sc_Policy sc) = getCacheControlHeaderValue scenario_B_response"
    and off: "\<not> cfg_OverrideTTL (cache_config False) \<and> getCacheControlHeaderValue scenario_B_response < 1000000
           \<longrightarrow> sc_CacheControlValue sc = getCacheControlHeaderValue scenario_B_response"
    by blast
  have "sc_CacheControlValue sc = 60"
    using off by (simp add: scenario_B_original cache_config_def)
  moreover have "policy_MaxAge (sc_Policy sc) = 60"
    using pol by (simp add: scenario_B_original)
  moreover have "NewCacheMiddleware lib (cache_config False) (respond_with scenario_B_response)
       scenario_B_request empty_world =
       (Return (Some resp', None),
        empty_world\<lparr>network := [scenario_B_request],
          goroutines :=
            [\<lparr>set_ctx = 0, set_key = getCacheKey lib scenario_B_request [''Authorization''],
              set_text = Marshalled sc, set_expiration = time_Second * 60\<rparr>]\<rparr>)"
    using res by (simp add: scenario_B_original scenario_B_context cache_config_def empty_world_def)
  ultimately show "\<exists>resp' sc.
     NewCacheMiddleware lib (cache_config False) (respond_with scenario_B_response)
       scenario_B_request empty_world =
       (Return (Some resp', None),
        empty_world\<lparr>network := [scenario_B_request],
          goroutines :=
            [\<lparr>set_ctx = 0, set_key = getCacheKey lib scenario_B_request [''Authorization''],
              set_text = Marshalled sc, set_expiration = time_Second * 60\<rparr>]\<rparr>)
     \<and> policy_MaxAge (sc_Policy sc) = 60 \<and> sc_CacheControlValue sc = 60"
    by blast
qed

lemma reread_30_seconds_marked:
  "getCacheControlHeaderValue
     (r\<lparr>resp_Header := header_Set (header_Set h ''Cache-Control'' ''max-age=30, public'')
                              ''X-Cache'' v\<rparr>) = 30"
  by (simp add: getCacheControlHeaderValue_def header_Get_Set_same header_Get_Set_other
      Cache_Control_neq_X_Cache strconv_Atoi_def isDigit_def digits_val_def)

lemma reread_30_seconds:
  "getCacheControlHeaderValue
     (r\<lparr>resp_Header := header_Set h ''Cache-Control'' ''max-age=30, public''\<rparr>) = 30"
  by (simp add: getCacheControlHeaderValue_def header_Get_Set_same
      strconv_Atoi_def isDigit_def digits_val_def)

text \<open>
  C3 as stated fails: scenario B with the override flag on and a TTL of 30 seconds. The
  original max-age is 60, and the stored record has \<^verbatim>\<open>cacheControlValue\<close> 30 (and
  \<^verbatim>\<open>policy.maxAge\<close> 60).
\<close>

theorem cacheControlValue_not_original_counterexample:
  "\<forall>lib. \<exists>resp' sc.
     NewCacheMiddleware lib (cache_config True) (respond_with scenario_B_response)
       scenario_B_request empty_world =
       (Return (Some resp', None),
        empty_world\<lparr>network := [scenario_B_request],
          goroutines :=
            [\<lparr>set_ctx = 0, set_key = getCacheKey lib scenario_B_request [''Authorization''],
              set_text = Marshalled sc, set_expiration = 30 * time_Second\<rparr>]\<rparr>)
     \<and> getCacheControlHeaderValue scenario_B_response = 60
     \<and> sc_CacheControlValue sc = 30
     \<and> sc_CacheControlValue sc \<noteq> getCacheControlHeaderValue scenario_B_response
     \<and> policy_MaxAge (sc_Policy sc) = 60"
proof
  fix lib
  have store: "NewCacheMiddleware lib (cache_config True) (respond_with scenario_B_response)
        scenario_B_request empty_world
      = cache_store_response lib (cache_config True)
          (getCacheKey lib scenario_B_request [''Authorization''])
          scenario_B_request scenario_B_response (empty_world\<lparr>network := [scenario_B_request]\<rparr>)"
    using scenario_B_miss scenario_B_inner scenario_B_status by (rule NewCacheMiddleware_miss_2xx)
  show "\<exists>resp' sc.
     NewCacheMiddleware lib (cache_config True) (respond_with scenario_B_response)
       scenario_B_request empty_world =
       (Return (Some resp', None),
        empty_world\<lparr>network := [scenario_B_request],
          goroutines :=
            [\<lparr>set_ctx = 0, set_key = getCacheKey lib scenario_B_request [''Authorization''],
              set_text = Marshalled sc, set_expiration = 30 * time_Second\<rparr>]\<rparr>)
     \<and> getCacheControlHeaderValue scenario_B_response = 60
     \<and> sc_CacheControlValue sc = 30
     \<and> sc_CacheControlValue sc \<noteq> getCacheControlHeaderValue scenario_B_response
     \<and> policy_MaxAge (sc_Policy sc) = 60"
    unfolding store cache_store_response_readable [OF scenario_B_body]
    by (simp add: Let_def cache_config_def time_Second_def fmt_Seconds_30 scenario_B_context
        empty_world_def scenario_B_original reread_30_seconds reread_30_seconds_marked)
qed

text \<open>
  When a request takes which path, in the terms of the code: it bypasses the cache
  without a store and for a method other than GET; it is a miss when the store is there,
  the method is GET and \<^verbatim>\<open>Get\<close> gives an error or the empty text; it is a hit when
  \<^verbatim>\<open>Get\<close> gives a text that decodes.
\<close>

lemma cache_path_of_no_store:
  "cfg_RedisClient cfg = None \<Longrightarrow> cache_path_of lib cfg req w = Bypass w"
  by (simp add: cache_path_of_def)

lemma cache_path_of_not_GET:
  "req_Method req \<noteq> ''GET'' \<Longrightarrow> cache_path_of lib cfg req w = Bypass w"
  by (simp add: cache_path_of_def split: option.splits)

lemma cache_path_of_Miss_iff:
  "cache_path_of lib cfg req w = Miss k w1 \<longleftrightarrow>
     (\<exists>client v err.
        cfg_RedisClient cfg = Some client \<and> req_Method req = ''GET''
        \<and> k = getCacheKey lib req (cfg_Headers cfg)
        \<and> redis_Get client (req_Context req) k w = ((v, err), w1)
        \<and> \<not> (err = None \<and> v \<noteq> OtherText []))"
  by (auto simp: cache_path_of_def Let_def parseCachedResponseFromString_def
      split: option.splits prod.splits cache_text.splits if_splits)

lemma cache_path_of_Hit_iff:
  "cache_path_of lib cfg req w = Hit sc w1 \<longleftrightarrow>
     (\<exists>client.
        cfg_RedisClient cfg = Some client \<and> req_Method req = ''GET''
        \<and> redis_Get client (req_Context req) (getCacheKey lib req (cfg_Headers cfg)) w
            = ((Marshalled sc, None), w1))"
  by (auto simp: cache_path_of_def Let_def parseCachedResponseFromString_def
      split: option.splits prod.splits cache_text.splits if_splits)

text \<open>
  C4 (amended). When the inner chain returns an error, the cache middleware returns the
  response and the world of the inner chain as they are: no \<^verbatim>\<open>Set\<close> call is made or
  started. On a bypass the error is the inner error itself; on a miss it is a new error,
  \<^verbatim>\<open>fmt.Errorf("error executing request: %w", err)\<close>, that wraps the inner error.
\<close>

theorem NewCacheMiddleware_inner_error:
  assumes "nxt req w1 = (Return (resp, Some err), w2)"
  shows "(cache_path_of lib cfg req w = Bypass w1 \<longrightarrow>
            NewCacheMiddleware lib cfg nxt req w = (Return (resp, Some err), w2))
       \<and> (cache_path_of lib cfg req w = Miss cacheKey w1 \<longrightarrow>
            NewCacheMiddleware lib cfg nxt req w =
              (Return (resp, Some (Errorf ''error executing request'' err)), w2))"
  using assms by (simp add: NewCacheMiddleware_paths split: option.splits)

lemma fail_with_inner:
  "fail_with err req empty_world = (Return (None, Some err), empty_world\<lparr>network := [req]\<rparr>)"
  by (simp add: fail_with_def empty_world_def)

theorem NewCacheMiddleware_inner_error_witness:
  "\<forall>lib.
     NewCacheMiddleware lib (cache_config False) (fail_with (TransportError ''connection refused''))
       scenario_B_request empty_world =
       (Return (None, Some (Errorf ''error executing request'' (TransportError ''connection refused''))),
        empty_world\<lparr>network := [scenario_B_request]\<rparr>)
   \<and> NewCacheMiddleware lib (cache_config False) (fail_with (TransportError ''connection refused''))
       (scenario_B_request\<lparr>req_Method := ''POST''\<rparr>) empty_world =
       (Return (None, Some (TransportError ''connection refused'')),
        empty_world\<lparr>network := [scenario_B_request\<lparr>req_Method := ''POST''\<rparr>]\<rparr>)"
proof
  fix lib
  have bypass: "cache_path_of lib (cache_config False) (scenario_B_request\<lparr>req_Method := ''POST''\<rparr>)
      empty_world = Bypass empty_world"
    by (rule cache_path_of_not_GET) simp
  note miss = NewCacheMiddleware_inner_error
    [where nxt = "fail_with (TransportError ''connection refused'')" and req = scenario_B_request
       and lib = lib and cfg = "cache_config False" and w = empty_world
       and cacheKey = "getCacheKey lib scenario_B_request [''Authorization'']",
     OF fail_with_inner]
  note byp = NewCacheMiddleware_inner_error
    [where nxt = "fail_with (TransportError ''connection refused'')"
       and req = "scenario_B_request\<lparr>req_Method := ''POST''\<rparr>"
       and lib = lib and cfg = "cache_config False" and w = empty_world,
     OF fail_with_inner]
  show "NewCacheMiddleware lib (cache_config False) (fail_with (TransportError ''connection refused''))
       scenario_B_request empty_world =
       (Return (None, Some (Errorf ''error executing request'' (TransportError ''connection refused''))),
        empty_world\<lparr>network := [scenario_B_request]\<rparr>)
   \<and> NewCacheMiddleware lib (cache_config False) (fail_with (TransportError ''connection refused''))
       (scenario_B_request\<lparr>req_Method := ''POST''\<rparr>) empty_world =
       (Return (None, Some (TransportError ''connection refused'')),
        empty_world\<lparr>network := [scenario_B_request\<lparr>req_Method := ''POST''\<rparr>]\<rparr>)"
    using miss byp by (simp add: scenario_B_miss bypass)
qed

text \<open>
  C4 as stated fails: a GET request that misses, over a transport that refuses the
  connection. The error the middleware returns is not the error of the transport.
\<close>

theorem inner_error_is_wrapped_counterexample:
  "\<forall>lib.
     fst (fail_with (TransportError ''connection refused'') scenario_B_request empty_world) =
       Return (None, Some (TransportError ''connection refused''))
   \<and> fst (NewCacheMiddleware lib (cache_config False) (fail_with (TransportError ''connection refused''))
          scenario_B_request empty_world) =
       Return (None, Some (Errorf ''error executing request'' (TransportError ''connection refused'')))
   \<and> fst (NewCacheMiddleware lib (cache_config False) (fail_with (TransportError ''connection refused''))
          scenario_B_request empty_world) \<noteq>
       fst (fail_with (TransportError ''connection refused'') scenario_B_request empty_world)"
  by (simp add: NewCacheMiddleware_paths scenario_B_miss fail_with_inner)

lemma cache_hit_response_X_Cache:
  "header_Get (resp_Header (cache_hit_response sc req)) ''X-Cache'' = ''HIT''"
  by (simp add: cache_hit_response_def Let_def header_Get_Set_same)

lemma cache_store_response_X_Cache:
  "\<exists>resp' e w3. cache_store_response lib cfg cacheKey req resp w = (Return (Some resp', e), w3)
      \<and> header_Get (resp_Header resp') ''X-Cache'' = ''MISS''"
proof (cases "resp_Body resp")
  case (Body b)
  show ?thesis
    unfolding cache_store_response_readable [OF Body]
    by (simp add: Let_def header_Get_Set_same)
next
  case (FailingBody e)
  show ?thesis
    unfolding cache_store_response_unreadable [OF FailingBody]
    by (simp add: Let_def header_Get_Set_same)
qed

text \<open>
  C5 (amended). A response served from the stored record carries \<^verbatim>\<open>X-Cache: HIT\<close>, and
  a 2xx response of a miss carries \<^verbatim>\<open>X-Cache: MISS\<close> (also when serializing it fails).
  A response of a miss that is not 2xx, and the result of a request that bypasses the
  cache, are returned as the inner chain gave them: the middleware does not set the
  header there.
\<close>

theorem NewCacheMiddleware_X_Cache:
  "(cache_path_of lib cfg req w = Hit sc wa \<longrightarrow>
      (\<exists>resp'. NewCacheMiddleware lib cfg nxt req w = (Return (Some resp', None), wa)
         \<and> header_Get (resp_Header resp') ''X-Cache'' = ''HIT''))
   \<and> (cache_path_of lib cfg req w = Miss cacheKey wa
        \<and> nxt req wa = (Return (Some resp, None), wb)
        \<and> 200 \<le> resp_StatusCode resp \<and> resp_StatusCode resp < 300 \<longrightarrow>
      (\<exists>resp' e w3. NewCacheMiddleware lib cfg nxt req w = (Return (Some resp', e), w3)
         \<and> header_Get (resp_Header resp') ''X-Cache'' = ''MISS''))
   \<and> (cache_path_of lib cfg req w = Miss cacheKey wa
        \<and> nxt req wa = (Return (Some resp, None), wb)
        \<and> \<not> (200 \<le> resp_StatusCode resp \<and> resp_StatusCode resp < 300) \<longrightarrow>
      NewCacheMiddleware lib cfg nxt req w = (Return (Some resp, None), wb))
   \<and> (cache_path_of lib cfg req w = Bypass wa \<longrightarrow>
      NewCacheMiddleware lib cfg nxt req w = nxt req wa)"
proof (intro conjI impI)
  assume "cache_path_of lib cfg req w = Hit sc wa"
  then show "\<exists>resp'. NewCacheMiddleware lib cfg nxt req w = (Return (Some resp', None), wa)
         \<and> header_Get (resp_Header resp') ''X-Cache'' = ''HIT''"
    by (simp add: NewCacheMiddleware_paths cache_hit_response_X_Cache)
next
  assume a: "cache_path_of lib cfg req w = Miss cacheKey wa
        \<and> nxt req wa = (Return (Some resp, None), wb)
        \<and> 200 \<le> resp_StatusCode resp \<and> resp_StatusCode resp < 300"
  then have "NewCacheMiddleware lib cfg nxt req w = cache_store_response lib cfg cacheKey req resp wb"
    by (simp add: NewCacheMiddleware_paths)
  then show "\<exists>resp' e w3. NewCacheMiddleware lib cfg nxt req w = (Return (Some resp', e), w3)
         \<and> header_Get (resp_Header resp') ''X-Cache'' = ''MISS''"
    using cache_store_response_X_Cache [of lib cfg cacheKey req resp wb] by simp
next
  assume "cache_path_of lib cfg req w = Miss cacheKey wa
        \<and> nxt req wa = (Return (Some resp, None), wb)
        \<and> \<not> (200 \<le> resp_StatusCode resp \<and> resp_StatusCode resp < 300)"
  then show "NewCacheMiddleware lib cfg nxt req w = (Return (Some resp, None), wb)"
    by (auto simp: NewCacheMiddleware_paths)
next
  assume "cache_path_of lib cfg req w = Bypass wa"
  then show "NewCacheMiddleware lib cfg nxt req w = nxt req wa"
    by (simp add: NewCacheMiddleware_paths)
qed


lemma world_with_entry_hit:
  "cache_path_of lib (cache_config ov) scenario_B_request
     (world_with_entry (getCacheKey lib scenario_B_request [''Authorization''])) =
   Hit scenario_B_record (world_with_entry (getCacheKey lib scenario_B_request [''Authorization'']))"
  by (simp add: cache_path_of_def cache_config_def scenario_B_request_def get_request_def
      world_with_entry_def empty_world_def RedisClient_def RedisClient_Get_def Let_def
      parseCachedResponseFromString_def)

lemma respond_with_inner:
  "respond_with resp req empty_world = (Return (Some resp, None), empty_world\<lparr>network := [req]\<rparr>)"
  by (simp add: respond_with_def empty_world_def)

lemma POST_bypass:
  "cache_path_of lib cfg (scenario_B_request\<lparr>req_Method := ''POST''\<rparr>) w = Bypass w"
  by (rule cache_path_of_not_GET) simp

theorem NewCacheMiddleware_X_Cache_witness:
  "\<forall>lib.
     (\<exists>resp'. NewCacheMiddleware lib (cache_config False) (respond_with scenario_B_response)
          scenario_B_request (world_with_entry (getCacheKey lib scenario_B_request [''Authorization'']))
        = (Return (Some resp', None),
           world_with_entry (getCacheKey lib scenario_B_request [''Authorization'']))
        \<and> header_Get (resp_Header resp') ''X-Cache'' = ''HIT'')
   \<and> (\<exists>resp' e w3. NewCacheMiddleware lib (cache_config False) (respond_with scenario_B_response)
          scenario_B_request empty_world = (Return (Some resp', e), w3)
        \<and> header_Get (resp_Header resp') ''X-Cache'' = ''MISS'')
   \<and> NewCacheMiddleware lib (cache_config False) (respond_with (status_response 404))
          scenario_B_request empty_world =
        (Return (Some (status_response 404), None), empty_world\<lparr>network := [scenario_B_request]\<rparr>)
   \<and> NewCacheMiddleware lib (cache_config False) (respond_with scenario_B_response)
          (scenario_B_request\<lparr>req_Method := ''POST''\<rparr>) empty_world =
        (Return (Some scenario_B_response, None),
         empty_world\<lparr>network := [scenario_B_request\<lparr>req_Method := ''POST''\<rparr>]\<rparr>)"
proof
  fix lib
  let ?k = "getCacheKey lib scenario_B_request [''Authorization'']"
  note hit = NewCacheMiddleware_X_Cache
    [where lib = lib and cfg = "cache_config False" and req = scenario_B_request
       and w = "world_with_entry ?k" and sc = scenario_B_record and wa = "world_with_entry ?k"
       and nxt = "respond_with scenario_B_response", THEN conjunct1]
  note miss = NewCacheMiddleware_X_Cache
    [where lib = lib and cfg = "cache_config False" and req = scenario_B_request
       and w = empty_world and cacheKey = ?k and wa = empty_world
       and nxt = "respond_with scenario_B_response" and resp = scenario_B_response
       and wb = "empty_world\<lparr>network := [scenario_B_request]\<rparr>",
     THEN conjunct2, THEN conjunct1]
  note other = NewCacheMiddleware_X_Cache
    [where lib = lib and cfg = "cache_config False" and req = scenario_B_request
       and w = empty_world and cacheKey = ?k and wa = empty_world
       and nxt = "respond_with (status_response 404)" and resp = "status_response 404"
       and wb = "empty_world\<lparr>network := [scenario_B_request]\<rparr>",
     THEN conjunct2, THEN conjunct2, THEN conjunct1]
  note byp = NewCacheMiddleware_X_Cache
    [where lib = lib and cfg = "cache_config False"
       and req = "scenario_B_request\<lparr>req_Method := ''POST''\<rparr>"
       and w = empty_world and wa = empty_world
       and nxt = "respond_with scenario_B_response",
     THEN conjunct2, THEN conjunct2, THEN conjunct2]
  have s404: "\<not> (200 \<le> resp_StatusCode (status_response 404) \<and> resp_StatusCode (status_response 404) < 300)"
    by (simp add: status_response_def)
  show "(\<exists>resp'. NewCacheMiddleware lib (cache_config False) (respond_with scenario_B_response)
          scenario_B_request (world_with_entry ?k)
        = (Return (Some resp', None), world_with_entry ?k)
        \<and> header_Get (resp_Header resp') ''X-Cache'' = ''HIT'')
   \<and> (\<exists>resp' e w3. NewCacheMiddleware lib (cache_config False) (respond_with scenario_B_response)
          scenario_B_request empty_world = (Return (Some resp', e), w3)
        \<and> header_Get (resp_Header resp') ''X-Cache'' = ''MISS'')
   \<and> NewCacheMiddleware lib (cache_config False) (respond_with (status_response 404))
          scenario_B_request empty_world =
        (Return (Some (status_response 404), None), empty_world\<lparr>network := [scenario_B_request]\<rparr>)
   \<and> NewCacheMiddleware lib (cache_config False) (respond_with scenario_B_response)
          (scenario_B_request\<lparr>req_Method := ''POST''\<rparr>) empty_world =
        (Return (Some scenario_B_response, None),
         empty_world\<lparr>network := [scenario_B_request\<lparr>req_Method := ''POST''\<rparr>]\<rparr>)"
    using hit miss other byp s404
    by (simp add: world_with_entry_hit scenario_B_miss respond_with_inner scenario_B_status POST_bypass)
qed

text \<open>
  C5 as stated fails: a GET answered with 404, and a POST answered with 200, come back
  without an \<^verbatim>\<open>X-Cache\<close> header.
\<close>

theorem X_Cache_absent_counterexample:
  "\<forall>lib.
     NewCacheMiddleware lib (cache_config False) (respond_with (status_response 404))
          scenario_B_request empty_world =
        (Return (Some (status_response 404), None), empty_world\<lparr>network := [scenario_B_request]\<rparr>)
   \<and> NewCacheMiddleware lib (cache_config False) (respond_with scenario_B_response)
          (scenario_B_request\<lparr>req_Method := ''POST''\<rparr>) empty_world =
        (Return (Some scenario_B_response, None),
         empty_world\<lparr>network := [scenario_B_request\<lparr>req_Method := ''POST''\<rparr>]\<rparr>)
   \<and> header_Get (resp_Header (status_response 404)) ''X-Cache'' = []
   \<and> header_Get (resp_Header scenario_B_response) ''X-Cache'' = []
   \<and> [] \<noteq> ''HIT'' \<and> [] \<noteq> ''MISS''"
  by (simp add: NewCacheMiddleware_paths scenario_B_miss respond_with_inner POST_bypass
      status_response_def scenario_B_response_def header_Get_def canonical_X_Cache)







lemma run_goroutine_canceled:
  "List.member (canceled wc) (set_ctx g) \<Longrightarrow> run_goroutine RedisClient g wc = wc"
  by (simp add: run_goroutine_def RedisClient_def RedisClient_Set_def)

lemma run_goroutine_stores:
  "\<not> List.member (canceled wc) (set_ctx g) \<Longrightarrow>
   map_of (redis_db (run_goroutine RedisClient g wc)) (set_key g) = Some (set_text g, set_expiration g)"
  by (simp add: run_goroutine_def RedisClient_def RedisClient_Set_def update_conv')

text \<open>
  C7 (amended). The goroutine started for a 2xx response of a miss calls \<^verbatim>\<open>Set\<close> with
  the context of the inbound request (\<^verbatim>\<open>req.Context()\<close>, line 154). Its write is
  therefore tied to the caller's cancellation: with the store client of
  \<^verbatim>\<open>clients/redisclient\<close>, which honours its context, the \<^verbatim>\<open>Set\<close> call changes
  nothing when that context is cancelled at the time it runs, and stores the record
  under the cache key when it is not.
\<close>

theorem detached_Set_uses_request_context:
  assumes miss: "cache_path_of lib cfg req w = Miss cacheKey wa"
    and inner: "nxt req wa = (Return (Some resp, None), wb)"
    and status: "200 \<le> resp_StatusCode resp" "resp_StatusCode resp < 300"
    and body: "resp_Body resp = Body b"
  shows "\<exists>resp' g.
      NewCacheMiddleware lib cfg nxt req w =
        (Return (Some resp', None), wb\<lparr>goroutines := goroutines wb @ [g]\<rparr>)
      \<and> set_ctx g = req_Context req
      \<and> set_key g = cacheKey
      \<and> (\<forall>wc. List.member (canceled wc) (req_Context req)
              \<longrightarrow> run_goroutine RedisClient g wc = wc)
      \<and> (\<forall>wc. \<not> List.member (canceled wc) (req_Context req)
              \<longrightarrow> map_of (redis_db (run_goroutine RedisClient g wc)) cacheKey
                    = Some (set_text g, set_expiration g))"
proof -
  have store: "NewCacheMiddleware lib cfg nxt req w = cache_store_response lib cfg cacheKey req resp wb"
    using miss inner status by (rule NewCacheMiddleware_miss_2xx)
  obtain resp' g where
    result: "cache_store_response lib cfg cacheKey req resp wb =
        (Return (Some resp', None), wb\<lparr>goroutines := goroutines wb @ [g]\<rparr>)"
    and ctx: "set_ctx g = req_Context req" and key: "set_key g = cacheKey"
    unfolding cache_store_response_readable [OF body] Let_def
    by (metis set_call.select_convs(1) set_call.select_convs(2))
  have aborted: "\<forall>wc. List.member (canceled wc) (req_Context req)
              \<longrightarrow> run_goroutine RedisClient g wc = wc"
    using run_goroutine_canceled [of _ g] by (simp add: ctx)
  have written: "\<forall>wc. \<not> List.member (canceled wc) (req_Context req)
              \<longrightarrow> map_of (redis_db (run_goroutine RedisClient g wc)) cacheKey
                    = Some (set_text g, set_expiration g)"
    using run_goroutine_stores [of _ g] by (simp add: ctx key)
  show ?thesis
    unfolding store
    by (rule exI [of _ resp'], rule exI [of _ g]) (intro conjI result ctx key aborted written)
qed


theorem detached_Set_uses_request_context_witness:
  "\<forall>lib. \<exists>resp' g.
     NewCacheMiddleware lib (cache_config False) (respond_with scenario_B_response)
       scenario_B_request empty_world =
       (Return (Some resp', None),
        empty_world\<lparr>network := [scenario_B_request], goroutines := [g]\<rparr>)
     \<and> set_ctx g = 0
     \<and> run_goroutine RedisClient g (empty_world\<lparr>canceled := [0]\<rparr>) = empty_world\<lparr>canceled := [0]\<rparr>"
proof
  fix lib
  from detached_Set_uses_request_context
    [where lib = lib and cfg = "cache_config False" and nxt = "respond_with scenario_B_response"
       and req = scenario_B_request and w = empty_world,
     OF scenario_B_miss respond_with_inner scenario_B_status scenario_B_body]
  obtain resp' g where
    res: "NewCacheMiddleware lib (cache_config False) (respond_with scenario_B_response)
       scenario_B_request empty_world =
       (Return (Some resp', None),
        empty_world\<lparr>network := [scenario_B_request]\<rparr>
          \<lparr>goroutines := goroutines (empty_world\<lparr>network := [scenario_B_request]\<rparr>) @ [g]\<rparr>)"
    and ctx: "set_ctx g = req_Context scenario_B_request"
    and aborted: "\<forall>wc. List.member (canceled wc) (req_Context scenario_B_request)
              \<longrightarrow> run_goroutine RedisClient g wc = wc"
    by blast
  have "NewCacheMiddleware lib (cache_config False) (respond_with scenario_B_response)
       scenario_B_request empty_world =
       (Return (Some resp', None),
        empty_world\<lparr>network := [scenario_B_request], goroutines := [g]\<rparr>)"
    using res by (simp add: empty_world_def)
  moreover have "set_ctx g = 0"
    using ctx by (simp add: scenario_B_context)
  moreover have "run_goroutine RedisClient g (empty_world\<lparr>canceled := [0]\<rparr>) = empty_world\<lparr>canceled := [0]\<rparr>"
    using aborted by (simp add: scenario_B_context)
  ultimately show "\<exists>resp' g.
     NewCacheMiddleware lib (cache_config False) (respond_with scenario_B_response)
       scenario_B_request empty_world =
       (Return (Some resp', None),
        empty_world\<lparr>network := [scenario_B_request], goroutines := [g]\<rparr>)
     \<and> set_ctx g = 0
     \<and> run_goroutine RedisClient g (empty_world\<lparr>canceled := [0]\<rparr>) = empty_world\<lparr>canceled := [0]\<rparr>"
    by blast
qed

lemma scenario_B_result_world:
  "\<exists>sc. snd (NewCacheMiddleware lib (cache_config False) (respond_with scenario_B_response)
       scenario_B_request empty_world) =
     empty_world\<lparr>network := [scenario_B_request],
       goroutines :=
         [\<lparr>set_ctx = 0, set_key = getCacheKey lib scenario_B_request [''Authorization''],
           set_text = Marshalled sc, set_expiration = 60 * time_Second\<rparr>]\<rparr>"
proof -
  have store: "NewCacheMiddleware lib (cache_config False) (respond_with scenario_B_response)
        scenario_B_request empty_world
      = cache_store_response lib (cache_config False)
          (getCacheKey lib scenario_B_request [''Authorization''])
          scenario_B_request scenario_B_response (empty_world\<lparr>network := [scenario_B_request]\<rparr>)"
    using scenario_B_miss respond_with_inner scenario_B_status by (rule NewCacheMiddleware_miss_2xx)
  show ?thesis
    unfolding store cache_store_response_readable [OF scenario_B_body]
    by (simp add: Let_def cache_config_def time_Second_def scenario_B_context
        empty_world_def scenario_B_original)
qed

text \<open>
  C7 as stated fails: scenario B, where the context of the request is cancelled after
  the middleware has returned and before the goroutine runs. The store stays empty;
  without the cancellation it holds the entry.
\<close>

theorem cancelled_request_aborts_cache_write_counterexample:
  "\<forall>lib.
     redis_db (run_goroutines RedisClient
       ((snd (NewCacheMiddleware lib (cache_config False) (respond_with scenario_B_response)
               scenario_B_request empty_world))
        \<lparr>canceled := [req_Context scenario_B_request]\<rparr>)) = []
   \<and> map fst (redis_db (run_goroutines RedisClient
       (snd (NewCacheMiddleware lib (cache_config False) (respond_with scenario_B_response)
               scenario_B_request empty_world)))) =
       [getCacheKey lib scenario_B_request [''Authorization'']]"
proof
  fix lib
  obtain sc where w: "snd (NewCacheMiddleware lib (cache_config False) (respond_with scenario_B_response)
       scenario_B_request empty_world) =
     empty_world\<lparr>network := [scenario_B_request],
       goroutines :=
         [\<lparr>set_ctx = 0, set_key = getCacheKey lib scenario_B_request [''Authorization''],
           set_text = Marshalled sc, set_expiration = 60 * time_Second\<rparr>]\<rparr>"
    using scenario_B_result_world [of lib] by blast
  show "redis_db (run_goroutines RedisClient
       ((snd (NewCacheMiddleware lib (cache_config False) (respond_with scenario_B_response)
               scenario_B_request empty_world))
        \<lparr>canceled := [req_Context scenario_B_request]\<rparr>)) = []
   \<and> map fst (redis_db (run_goroutines RedisClient
       (snd (NewCacheMiddleware lib (cache_config False) (respond_with scenario_B_response)
               scenario_B_request empty_world)))) =
       [getCacheKey lib scenario_B_request [''Authorization'']]"
    unfolding w
    by (simp add: run_goroutines_def run_goroutine_def RedisClient_def RedisClient_Set_def
        empty_world_def scenario_B_context)
qed

section \<open>Properties of the circuit breaker middleware\<close>

lemma NewCircuitBreaker_closed:
  "cb_state (NewCircuitBreaker (breaker_settings name) now) = StateClosed"
  by (simp add: NewCircuitBreaker_def breaker_settings_def toNewGeneration_def Let_def)

lemma currentState_closed:
  "cb_state cb = StateClosed \<Longrightarrow> cb_state (currentState cb now) = StateClosed"
  by (simp add: currentState_def toNewGeneration_def Let_def split: option.splits)

lemma beforeRequest_closed:
  "cb_state cb = StateClosed \<Longrightarrow> \<exists>cb' g. beforeRequest cb now = (cb', g, None)"
  by (simp add: beforeRequest_def Let_def currentState_closed)

lemma Execute_closed:
  "cb_state cb = StateClosed \<Longrightarrow>
   fst (fst (Execute cb f w)) = fst (f w) \<and> snd (Execute cb f w) = snd (f w)"
  using beforeRequest_closed [of cb "clock w"]
  by (auto simp: Execute_def split: prod.splits outcome.splits option.splits)

text \<open>
  A closed breaker admits every request: the round trip on it is the function handed to
  \<open>Execute\<close>, whatever its counts and its expiry are.
\<close>

lemma breaker_RoundTrip_closed:
  assumes "cb_state cb = StateClosed"
  shows "fst (fst (breaker_RoundTrip cb nxt req w)) = fst (breaker_request nxt req w)
       \<and> snd (breaker_RoundTrip cb nxt req w) = snd (breaker_request nxt req w)"
proof -
  have closed: "cb_state (currentState cb (clock w)) = StateClosed"
    using assms by (rule currentState_closed)
  note exec = Execute_closed [OF closed, of "breaker_request nxt req" w]
  show ?thesis
    using exec
    by (auto simp: breaker_RoundTrip_def Let_def breaker_request_def
        split: prod.splits outcome.splits option.splits if_splits)
qed

text \<open>
  The breaker of the middleware is new, hence closed, at every request: the middleware
  is \<open>breaker_request\<close>, and no state survives the call.
\<close>

lemma NewCircuitBreakerMiddleware_forwards:
  "NewCircuitBreakerMiddleware name nxt req w = breaker_request nxt req w"
  using breaker_RoundTrip_closed [OF NewCircuitBreaker_closed, of name "clock w" nxt req w]
  by (auto simp: NewCircuitBreakerMiddleware_def Let_def split: prod.splits)

text \<open>
  The library does what scenario C expects when one breaker is kept from call to call:
  after the 25 calls it is open, the 26th call fails with \<open>ErrOpenState\<close>, and the
  network has seen 25 requests.
\<close>

lemma kept_breaker_scenario_C_opens:
  "(case kept_breaker_round_trips (NewCircuitBreaker (breaker_settings ''svc'') 0)
           (scripted_network scenario_C_statuses) scenario_C_requests empty_world of
      (rs, cb, w) \<Rightarrow>
        rs ! 25 = Return (None, Some ErrOpenState) \<and> cb_state cb = StateOpen
        \<and> length (network w) = 25)"
  by code_simp

text \<open>
  C1 (the code at the failing input). Scenario C through the middleware named \<open>svc\<close>:
  the 26th call is not short-circuited; it reaches the network, which has then seen 26
  requests, and its response is returned.
\<close>

theorem NewCircuitBreakerMiddleware_scenario_C_never_opens:
  "(case round_trips (NewCircuitBreakerMiddleware ''svc'' (scripted_network scenario_C_statuses))
           scenario_C_requests empty_world of
      (rs, w) \<Rightarrow>
        rs ! 25 = Return (Some (status_response 200), None) \<and> length (network w) = 26)"
  by code_simp

text \<open>
  C10. When the inner transport returns a response (and no error) whose status code is
  at least 500 or is 429, the circuit breaker middleware returns no response, and the
  error \<open>HTTPStatusError\<close> with that status code.
\<close>

theorem NewCircuitBreakerMiddleware_error_status:
  assumes "nxt req w = (Return (Some resp, None), w')"
    and "resp_StatusCode resp \<ge> 500 \<or> resp_StatusCode resp = 429"
  shows "NewCircuitBreakerMiddleware name nxt req w =
         (Return (None, Some (HTTPStatusError (resp_StatusCode resp) (ErrorString ''HTTP error''))), w')"
  using assms by (auto simp: NewCircuitBreakerMiddleware_forwards breaker_request_def)

theorem NewCircuitBreakerMiddleware_error_status_witness:
  "NewCircuitBreakerMiddleware ''svc'' (scripted_network [503])
     (get_request ''http://svc/health'' []) empty_world =
   (Return (None, Some (HTTPStatusError 503 (ErrorString ''HTTP error''))),
    empty_world\<lparr>network := [get_request ''http://svc/health'' []], clock := 1000000\<rparr>)"
proof -
  have inner: "scripted_network [503] (get_request ''http://svc/health'' []) empty_world =
      (Return (Some (status_response 503), None),
       empty_world\<lparr>network := [get_request ''http://svc/health'' []], clock := 1000000\<rparr>)"
    by (simp add: scripted_network_def empty_world_def Let_def)
  have status: "resp_StatusCode (status_response 503) \<ge> 500 \<or> resp_StatusCode (status_response 503) = 429"
    by (simp add: status_response_def)
  show ?thesis
    using NewCircuitBreakerMiddleware_error_status
      [where nxt = "scripted_network [503]" and req = "get_request ''http://svc/health'' []"
         and w = empty_world and resp = "status_response 503" and name = "''svc''",
       OF inner status]
    by (simp add: status_response_def)
qed

end
